theory Spec2Isabelle
  imports Main "HOL-Library.Sublist"
begin

section \<open>The packaging pipeline of the command line tool\<close>

text \<open>
  The program is one function, \<^verbatim>\<open>main\<close>, that runs a fixed sequence of steps: it reads
  the command line, loads and validates the settings, prepares the package layout of the
  host platform, runs the user's build command and the native compiler, packages, signs
  and (on macOS) notarizes the result. Every step talks to the outside: it logs, calls
  external commands, reads and writes the file system, and may end the process with
  \<^verbatim>\<open>exit\<close>.

  The embedding makes all of that explicit. The state holds the local variables of
  \<^verbatim>\<open>main\<close> that outlive one step, the settings map, the working directory, the process
  environment, the exit code once \<^verbatim>\<open>exit\<close> has been called, and the trace of effects in
  the order they happen. The outside is a \<open>world\<close>: the host platform, the answers of the
  external commands and of the file system, and the helper functions that \<^verbatim>\<open>main\<close> takes
  from the headers it includes (\<^verbatim>\<open>cli.hh\<close>, \<^verbatim>\<open>process.hh\<close>, \<^verbatim>\<open>common.hh\<close>), which are
  parameters of the embedding.

  Operations on the file system (creating directories, writing, copying and removing
  files, changing the working directory) are recorded in the trace and taken to succeed:
  the program catches no exception, so a failing operation would end the process, and
  such runs are not among the runs described here. The exit code of a run is the argument
  given to \<^verbatim>\<open>exit\<close>, or 0 when \<^verbatim>\<open>main\<close> returns.
\<close>

subsection \<open>Strings\<close>

text \<open>
  \<^verbatim>\<open>std::string(arg).find(x) != -1\<close>: \<^verbatim>\<open>find\<close> returns \<^verbatim>\<open>npos\<close>, the largest
  \<^verbatim>\<open>size_t\<close>, when \<^verbatim>\<open>x\<close> does not occur, and \<^verbatim>\<open>-1\<close> converts to the same value. The
  test is true exactly when \<^verbatim>\<open>x\<close> occurs somewhere in the string.
\<close>

fun str_contains :: "string \<Rightarrow> string \<Rightarrow> bool" where
  "str_contains [] x = (x = [])"
| "str_contains (c # cs) x = (prefix x (c # cs) \<or> str_contains cs x)"

definition sq :: string where
  "sq = [CHR 0x27]"

definition dq :: string where
  "dq = [CHR 0x22]"

definition nl :: char where
  "nl = CHR 0x0A"

definition cr :: char where
  "cr = CHR 0x0D"

subsection \<open>The outside world\<close>

text \<open>
  Modelled from the spec: the declaration of the global \<^verbatim>\<open>platform\<close>, with its flags
  \<^verbatim>\<open>mac\<close>, \<^verbatim>\<open>linux\<close> and \<^verbatim>\<open>win\<close>, is in an included header. The specification takes the
  target platform to be exactly one of macOS, Linux and Windows, determined by the host.
\<close>

datatype platform_os = Mac | Linux | Win

text \<open>
  The result of \<^verbatim>\<open>exec\<close>, with the two fields that \<^verbatim>\<open>main\<close> reads; the manifest
  templates, by their names; and the effects a run can have, as they appear in the trace
  (\<open>Usage\<close> is the text printed by \<^verbatim>\<open>help()\<close>, \<open>Exec\<close> a call of \<^verbatim>\<open>exec\<close>, \<open>System\<close> a
  call of \<^verbatim>\<open>std::system\<close>, \<open>Sleep\<close> a pause in milliseconds).
\<close>

record proc_result =
  exitCode :: int
  proc_output :: string

datatype template = gPListInfo | gDestkopManifest | gDebianManifest | gWindowsAppManifest

datatype event =
    Log string
  | Usage
  | SetEnv string string
  | Exec string
  | System string
  | Chdir string
  | RemoveAll string
  | CreateDirectories string
  | WriteFile string string
  | CopyFile string string
  | CreateSymlink string string
  | Sleep nat
  | AppxPackage string

text \<open>
  The answers of the outside may change while the program runs (the notarization service
  answers differently from one poll to the next), so \<open>exec\<close>, \<open>system\<close> and \<open>fs_exists\<close>
  take the trace of what has happened before the call. The helper functions
  \<open>parseConfig\<close>, \<open>tmpl\<close>, \<open>prefixFile\<close>, \<open>encodeURIComponent\<close>, \<open>split_fn\<close> (the
  source's \<^verbatim>\<open>split\<close>), \<open>pathToString\<close> and \<open>readFile\<close> come from the included headers
  and are parameters; \<^verbatim>\<open>getEnv\<close> and \<^verbatim>\<open>setEnv\<close> read and write the process environment,
  which starts as \<open>initial_env\<close> (an unset variable reads as the empty string). The path
  composition of \<^verbatim>\<open>std::filesystem\<close> on Windows (root names, two separators) depends on
  the tool chain and is a parameter too, \<open>win_append\<close>; on macOS and Linux it is
  \<open>posix_append\<close> below.
\<close>

record world =
  platform :: platform_os
  initial_env :: "string \<Rightarrow> string"
  initial_cwd :: string
  exec :: "event list \<Rightarrow> string \<Rightarrow> proc_result"
  system :: "event list \<Rightarrow> string \<Rightarrow> int"
  fs_exists :: "event list \<Rightarrow> string \<Rightarrow> bool"
  readFile :: "string \<Rightarrow> string"
  parseConfig :: "string \<Rightarrow> (string \<rightharpoonup> string)"
  tmpl :: "template \<Rightarrow> (string \<rightharpoonup> string) \<Rightarrow> string"
  prefixFile :: "string \<Rightarrow> string"
  encodeURIComponent :: "string \<Rightarrow> string"
  split_fn :: "string \<Rightarrow> char \<Rightarrow> string list"
  pathToString :: "string \<Rightarrow> string"
  win_append :: "string \<Rightarrow> string \<Rightarrow> string"

subsection \<open>The state of a run\<close>

record state =
  settings :: "string \<rightharpoonup> string"
  settings_text :: string
  environ :: "string \<Rightarrow> string"
  cwd :: string
  trace :: "event list"
  exit_code :: "int option"
  flagRunUserBuild :: bool
  flagAppStore :: bool
  flagCodeSign :: bool
  flagShouldRun :: bool
  flagEntitlements :: bool
  flagShouldNotarize :: bool
  flagDebugMode :: bool
  flagShouldPackage :: bool
  target :: string
  pathOutput :: string
  executable :: string
  flags :: string
  files :: string
  pathBin :: string
  pathResources :: string
  pathResourcesRelativeToUserBuild :: string
  pathPackage :: string
  pathToArchive :: string
  packageName :: string

definition initial_state :: "world \<Rightarrow> state" where
  "initial_state w =
     \<lparr>settings = Map.empty, settings_text = [], environ = initial_env w,
      cwd = initial_cwd w, trace = [], exit_code = None,
      flagRunUserBuild = False, flagAppStore = False, flagCodeSign = False,
      flagShouldRun = False, flagEntitlements = False, flagShouldNotarize = False,
      flagDebugMode = True, flagShouldPackage = False,
      target = [], pathOutput = [], executable = [], flags = [], files = [],
      pathBin = [], pathResources = [], pathResourcesRelativeToUserBuild = [],
      pathPackage = [], pathToArchive = [], packageName = []\<rparr>"

definition emit :: "event \<Rightarrow> state \<Rightarrow> state" where
  "emit e s = s\<lparr>trace := trace s @ [e]\<rparr>"

definition log :: "string \<Rightarrow> state \<Rightarrow> state" where
  "log m s = emit (Log m) s"

definition exit_process :: "int \<Rightarrow> state \<Rightarrow> state" where
  "exit_process c s = s\<lparr>exit_code := Some c\<rparr>"

definition help_exit :: "state \<Rightarrow> state" where
  "help_exit s = exit_process 0 (emit Usage s)"

text \<open>Statements run in sequence until one of them has ended the process.\<close>

fun run_steps :: "(state \<Rightarrow> state) list \<Rightarrow> state \<Rightarrow> state" where
  "run_steps [] s = s"
| "run_steps (f # fs) s = (if exit_code s = None then run_steps fs (f s) else s)"

subsection \<open>Settings\<close>

text \<open>
  The settings are a \<^verbatim>\<open>std::map\<close> from string to string. \<^verbatim>\<open>settings[k]\<close> on a key that
  is absent inserts the key with the empty string and yields it: \<open>idx\<close> is the value read,
  \<open>touch\<close> the insertion.
\<close>

definition idx :: "(string \<rightharpoonup> string) \<Rightarrow> string \<Rightarrow> string" where
  "idx m k = (case m k of None \<Rightarrow> [] | Some v \<Rightarrow> v)"

definition touch :: "string \<Rightarrow> (string \<rightharpoonup> string) \<Rightarrow> (string \<rightharpoonup> string)" where
  "touch k m = (case m k of None \<Rightarrow> m(k \<mapsto> []) | Some v \<Rightarrow> m)"

definition reads :: "string list \<Rightarrow> state \<Rightarrow> state" where
  "reads ks s = s\<lparr>settings := fold touch ks (settings s)\<rparr>"

definition append_value :: "string \<Rightarrow> string \<Rightarrow> (string \<rightharpoonup> string) \<Rightarrow> (string \<rightharpoonup> string)" where
  "append_value k sfx m = m(k \<mapsto> idx m k @ sfx)"

subsection \<open>Paths\<close>

text \<open>
  A \<^verbatim>\<open>fs::path\<close> is its text. \<^verbatim>\<open>a / b\<close> on a POSIX system: an absolute \<^verbatim>\<open>b\<close> replaces
  \<^verbatim>\<open>a\<close>; otherwise a separator is added when \<^verbatim>\<open>a\<close> has a file name (it is not empty and
  does not end in a separator), and \<^verbatim>\<open>b\<close> is appended.
\<close>

definition is_absolute :: "string \<Rightarrow> bool" where
  "is_absolute p = (case p of [] \<Rightarrow> False | c # _ \<Rightarrow> c = CHR ''/'')"

definition has_filename :: "string \<Rightarrow> bool" where
  "has_filename p = (case rev p of [] \<Rightarrow> False | c # _ \<Rightarrow> c \<noteq> CHR ''/'')"

definition posix_append :: "string \<Rightarrow> string \<Rightarrow> string" where
  "posix_append a b =
     (if is_absolute b then b
      else if has_filename a then a @ ''/'' @ b
      else a @ b)"

definition path_append :: "world \<Rightarrow> string \<Rightarrow> string \<Rightarrow> string" where
  "path_append w a b = (if platform w = Win then win_append w a b else posix_append a b)"

fun path_join :: "world \<Rightarrow> string \<Rightarrow> string list \<Rightarrow> string" where
  "path_join w a [] = a"
| "path_join w a (b # bs) = path_join w (path_append w a b) bs"

subsection \<open>Command line\<close>

text \<open>
  Lines 67 to 122 of \<^verbatim>\<open>main\<close>. The loop over \<^verbatim>\<open>std::span(argv, argc)\<close> visits every
  argument, the program name and the project directory included; \<open>parse_arg\<close> is its
  body. \<^verbatim>\<open>help()\<close> prints the usage and calls \<^verbatim>\<open>exit(0)\<close>. Before the loop, a default
  compiler is chosen when the environment names none (\<open>default_cxx\<close>).
\<close>

definition parse_arg :: "string \<Rightarrow> state \<Rightarrow> state" where
  "parse_arg arg s =
     (let s1 = (if str_contains arg ''-c'' then s\<lparr>flagCodeSign := True\<rparr> else s)
      in if str_contains arg ''-h'' then help_exit s1
         else
           (let s2 = (if str_contains arg ''-me'' then s1\<lparr>flagEntitlements := True\<rparr> else s1);
                s3 = (if str_contains arg ''-mn'' then s2\<lparr>flagShouldNotarize := True\<rparr> else s2);
                s4 = (if str_contains arg ''-o'' then s3\<lparr>flagRunUserBuild := True\<rparr> else s3);
                s5 = (if str_contains arg ''-p'' then s4\<lparr>flagShouldPackage := True\<rparr> else s4);
                s6 = (if str_contains arg ''-r'' then s5\<lparr>flagShouldRun := True\<rparr> else s5);
                s7 = (if str_contains arg ''-s'' then s6\<lparr>flagAppStore := True\<rparr> else s6)
            in if str_contains arg ''-xd'' then s7\<lparr>flagDebugMode := False\<rparr> else s7))"

fun parse_flags :: "string list \<Rightarrow> state \<Rightarrow> state" where
  "parse_flags [] s = s"
| "parse_flags (arg # rest) s =
     (let s' = parse_arg arg s
      in if exit_code s' = None then parse_flags rest s' else s')"

definition default_cxx :: "world \<Rightarrow> state \<Rightarrow> state" where
  "default_cxx w s =
     (if environ s ''CXX'' = [] then
        (let s1 = log ''warning! $CXX env var not set, assuming defaults'' s;
             v = (if platform w = Win then ''clang++'' else ''/usr/bin/g++'')
         in emit (SetEnv ''CXX'' v) (s1\<lparr>environ := (environ s1)(''CXX'' := v)\<rparr>))
      else s)"

subsection \<open>Loading and validating the settings\<close>

text \<open>
  Lines 129 to 153. The settings file of the project directory is read and parsed; the
  run ends with 1 when the key \<^verbatim>\<open>_cmd\<close> or one of the six keys of \<open>required\<close> is absent
  (\<^verbatim>\<open>settings.count(k) == 0\<close>), with a message in the log.
\<close>

definition load_settings :: "world \<Rightarrow> string \<Rightarrow> state \<Rightarrow> state" where
  "load_settings w tgt s =
     (let text = readFile w (path_append w tgt ''settings.config'')
      in s\<lparr>target := tgt, settings_text := text, settings := parseConfig w text\<rparr>)"

definition required :: "string list" where
  "required = [''name'', ''title'', ''executable'', ''output'', ''version'', ''arch'']"

fun check_required :: "string list \<Rightarrow> state \<Rightarrow> state" where
  "check_required [] s = s"
| "check_required (str # rest) s =
     (if settings s str = None
      then exit_process 1 (log (sq @ str @ sq @ '' key/value is required'') s)
      else check_required rest s)"

definition cmd_message :: string where
  "cmd_message = ''at least one of '' @ sq @ ''win_cmd'' @ sq @ '', '' @ sq @ ''mac_cmd'' @ sq
     @ '', '' @ sq @ ''linux_cmd'' @ sq @ '' key/value is required''"

definition validate_settings :: "state \<Rightarrow> state" where
  "validate_settings s =
     (if settings s ''_cmd'' = None then exit_process 1 (log cmd_message s)
      else check_required required s)"

subsection \<open>Debug mode\<close>

text \<open>Lines 155 to 159: \<^verbatim>\<open>settings[k] += "-dev"\<close> for three keys.\<close>

definition debug_mode :: "state \<Rightarrow> state" where
  "debug_mode s =
     (if flagDebugMode s
      then s\<lparr>settings :=
             append_value ''executable'' ''-dev''
               (append_value ''title'' ''-dev''
                 (append_value ''name'' ''-dev'' (settings s)))\<rparr>
      else s)"

subsection \<open>Preparing the package\<close>

text \<open>
  Lines 161 to 369: the output directory is removed unless \<^verbatim>\<open>-o\<close> was given, the name
  of the executable is fixed, and the block of the host platform computes the layout,
  creates the directories and writes the manifests. \<open>bs\<close> is the backslash.
\<close>

definition bs :: string where
  "bs = [CHR 0x5C]"

definition clean_output :: "world \<Rightarrow> state \<Rightarrow> state" where
  "clean_output w s =
     (let s1 = s\<lparr>pathOutput := idx (settings s) ''output''\<rparr>
      in if \<not> flagRunUserBuild s1
         then log (''cleaned: '' @ pathToString w (pathOutput s1)) (emit (RemoveAll (pathOutput s1)) s1)
         else s1)"

definition set_executable :: "world \<Rightarrow> state \<Rightarrow> state" where
  "set_executable w s =
     s\<lparr>executable := idx (settings s) ''executable'' @ (if platform w = Win then ''.exe'' else [])\<rparr>"

definition getCxxFlags :: "state \<Rightarrow> string" where
  "getCxxFlags s = (let fl = environ s ''CXX_FLAGS'' in if length fl > 0 then '' '' @ fl else [])"

definition mac_prep :: "world \<Rightarrow> state \<Rightarrow> state" where
  "mac_prep w s =
     (if platform w = Mac then
        (let s1 = log ''preparing build for mac'' s;
             pathBase = ''Contents'';
             pkgName = idx (settings s1) ''name'' @ ''.app'';
             pkg = path_join w (target s1) [pathOutput s1, pkgName];
             bin = path_join w pkg [pathBase, ''MacOS''];
             res = path_join w pkg [pathBase, ''Resources''];
             rel = path_join w (idx (settings s1) ''output'') [pkgName, pathBase, ''Resources''];
             s2 = s1\<lparr>flags := ''-std=c++2a -framework WebKit -framework Cocoa -ObjC++'' @ getCxxFlags s1,
                     files := files s1 @ prefixFile w ''src/main.cc'' @ prefixFile w ''src/process_unix.cc'',
                     packageName := pkgName, pathPackage := pkg, pathBin := bin,
                     pathResources := res, pathResourcesRelativeToUserBuild := rel\<rparr>;
             s3 = emit (CreateDirectories res) (emit (CreateDirectories bin) s2);
             plistInfo = tmpl w gPListInfo (settings s3)
         in emit (WriteFile (path_join w pkg [pathBase, ''Info.plist'']) plistInfo) s3)
      else s)"

text \<open>
  The Linux block, in the order of the source: the layout (package name and paths), the
  directories, the two manifests rendered from the settings with the installed paths
  written into them, and the icon. The paths of the control file, the desktop entry and
  the icons are local to the block; they depend on the package path only.
\<close>

definition linux_layout :: "world \<Rightarrow> state \<Rightarrow> state" where
  "linux_layout w s =
     (let st = settings s;
          pkgName = idx st ''executable'' @ ''_'' @ idx st ''version'' @ ''-''
                      @ idx st ''revision'' @ ''_'' @ idx st ''arch'';
          pkg = path_join w (target s) [pathOutput s, pkgName];
          pathBase = path_join w pkg [''opt'', idx st ''name'']
      in s\<lparr>flags := ''-std=c++2a `pkg-config --cflags --libs gtk+-3.0 webkit2gtk-4.0`'' @ getCxxFlags s,
            files := files s @ prefixFile w ''src/main.cc'' @ prefixFile w ''src/process_unix.cc'',
            packageName := pkgName, pathPackage := pkg, pathBin := pathBase,
            pathResources := pathBase,
            pathResourcesRelativeToUserBuild :=
              path_join w (pathOutput s) [pkgName, ''opt'', idx st ''name'']\<rparr>)"

definition pathControlFile :: "world \<Rightarrow> state \<Rightarrow> string" where
  "pathControlFile w s = path_append w (pathPackage s) ''DEBIAN''"

definition pathManifestFile :: "world \<Rightarrow> state \<Rightarrow> string" where
  "pathManifestFile w s = path_join w (pathPackage s) [''usr'', ''share'', ''applications'']"

definition pathIcons :: "world \<Rightarrow> state \<Rightarrow> string" where
  "pathIcons w s =
     path_join w (pathPackage s) [''usr'', ''share'', ''icons'', ''hicolor'', ''256x256'', ''apps'']"

definition linux_directories :: "world \<Rightarrow> state \<Rightarrow> state" where
  "linux_directories w s =
     emit (CreateDirectories (pathControlFile w s))
       (emit (CreateDirectories (pathManifestFile w s))
         (emit (CreateDirectories (pathResources s))
           (emit (CreateDirectories (pathIcons w s)) s)))"

definition linux_manifests :: "world \<Rightarrow> state \<Rightarrow> state" where
  "linux_manifests w s =
     (let st = settings s;
          linuxExecPath = path_join w ''/opt'' [idx st ''name'', idx st ''executable''];
          linuxIconPath = path_join w ''/usr''
              [''share'', ''icons'', ''hicolor'', ''256x256'', ''apps'', idx st ''executable'' @ ''.png''];
          s4 = s\<lparr>settings := st
                  (''linux_executable_path'' \<mapsto> pathToString w linuxExecPath,
                   ''linux_icon_path'' \<mapsto> pathToString w linuxIconPath)\<rparr>;
          s5 = emit (WriteFile (path_append w (pathManifestFile w s) (idx st ''name'' @ ''.desktop''))
                       (tmpl w gDestkopManifest (settings s4))) s4
      in emit (WriteFile (path_append w (pathControlFile w s) ''control'')
                 (tmpl w gDebianManifest (settings s4))) s5)"

definition linux_icon :: "world \<Rightarrow> state \<Rightarrow> state" where
  "linux_icon w s =
     (let s7 = reads [''linux_icon''] s;
          pathToIconSrc = pathToString w (path_append w (target s) (idx (settings s) ''linux_icon''));
          pathToIconDest = pathToString w
              (path_append w (pathIcons w s) (idx (settings s) ''executable'' @ ''.png''))
      in if \<not> fs_exists w (trace s7) pathToIconDest
         then emit (CopyFile pathToIconSrc pathToIconDest) s7
         else s7)"

definition linux_prep :: "world \<Rightarrow> state \<Rightarrow> state" where
  "linux_prep w s =
     (if platform w = Linux then
        linux_icon w (linux_manifests w (linux_directories w (linux_layout w
          (reads [''revision''] (log ''preparing build for linux'' s)))))
      else s)"

definition win_prep :: "world \<Rightarrow> state \<Rightarrow> state" where
  "win_prep w s =
     (if platform w = Win then
        (let s1 = log ''preparing build for win'' s;
             pfx = prefixFile w [];
             st = settings s1;
             pkgName = idx st ''executable'' @ ''-'' @ idx st ''version'';
             pkg = path_join w (cwd s1) [target s1, pathOutput s1, pkgName];
             s2 = s1\<lparr>flags := '' -std=c++20 -I'' @ pfx @ '' -I'' @ pfx @ bs @ ''src'' @ bs @ ''win64''
                                @ '' -L'' @ pfx @ bs @ ''src'' @ bs @ ''win64'',
                     files := files s1 @ prefixFile w (''src'' @ bs @ ''main.cc'')
                                @ prefixFile w (''src'' @ bs @ ''process_win.cc''),
                     packageName := pkgName, pathPackage := pkg, pathBin := pkg,
                     pathResourcesRelativeToUserBuild := pkg\<rparr>;
             s3 = emit (CreateDirectories pkg) s2;
             p = path_append w pkg ''AppxManifest.xml'';
             s4 = reads [''revision''] s3;
             s5 = (if length (idx (settings s4) ''revision'') = 0
                   then s4\<lparr>settings := (settings s4)(''revision'' \<mapsto> ''1'')\<rparr>
                   else s4)
         in emit (WriteFile p (tmpl w gWindowsAppManifest (settings s5))) s5)
      else s)"

subsection \<open>The user's build command and the native compiler\<close>

text \<open>
  Lines 376 to 430. A \<^verbatim>\<open>bool\<close> written to a stream prints as 1 or 0 (\<open>bool_text\<close>).
\<close>

definition bool_text :: "bool \<Rightarrow> string" where
  "bool_text b = (if b then ''1'' else ''0'')"

definition buildCommand :: "world \<Rightarrow> state \<Rightarrow> string" where
  "buildCommand w s =
     idx (settings s) ''build'' @ '' '' @ pathToString w (pathResourcesRelativeToUserBuild s)
       @ '' --debug='' @ bool_text (flagDebugMode s)"

definition user_build :: "world \<Rightarrow> state \<Rightarrow> state" where
  "user_build w s =
     (let oldCwd = cwd s;
          newCwd = path_append w oldCwd (target s);
          s1 = emit (Chdir newCwd) (s\<lparr>cwd := newCwd\<rparr>);
          s2 = reads [''build''] s1;
          s3 = log (buildCommand w s2) s2;
          r = exec w (trace s3) (buildCommand w s2);
          s4 = emit (Exec (buildCommand w s2)) s3
      in if exitCode r \<noteq> 0
         then exit_process (exitCode r) (log ''Unable to run user build command'' s4)
         else (let s5 = log ''ran user build command'' (log (proc_output r) s4)
               in emit (Chdir oldCwd) (s5\<lparr>cwd := oldCwd\<rparr>)))"

definition binaryPath :: "world \<Rightarrow> state \<Rightarrow> string" where
  "binaryPath w s = path_append w (pathBin s) (executable s)"

definition extraFlags :: "state \<Rightarrow> string" where
  "extraFlags s = (if flagDebugMode s then idx (settings s) ''debug_flags'' else idx (settings s) ''flags'')"

definition compileCommand :: "world \<Rightarrow> state \<Rightarrow> string" where
  "compileCommand w s =
     environ s ''CXX'' @ '' '' @ files s @ '' '' @ flags s @ '' '' @ extraFlags s
       @ '' -o '' @ pathToString w (binaryPath w s)
       @ '' -DDEBUG='' @ bool_text (flagDebugMode s)
       @ '' -DSETTINGS='' @ dq @ settings_text s @ dq"

definition compile :: "world \<Rightarrow> state \<Rightarrow> state" where
  "compile w s =
     (let s1 = s\<lparr>settings_text := encodeURIComponent w (settings_text s)\<rparr>;
          s2 = reads [if flagDebugMode s1 then ''debug_flags'' else ''flags''] s1;
          binExists = fs_exists w (trace s2) (binaryPath w s2)
      in if flagRunUserBuild s2 = False \<or> \<not> binExists then
           (let r = exec w (trace s2) (compileCommand w s2);
                s3 = emit (Exec (compileCommand w s2)) s2
            in if exitCode r \<noteq> 0
               then exit_process (exitCode r) (log ''Unable to build'' s3)
               else log ''compiled native binary'' s3)
         else s2)"

subsection \<open>Packaging and signing\<close>

text \<open>
  Lines 436 to 586 (Linux package, macOS signing, macOS archive) and 704 to 945 (Windows
  package, Windows signing, the run of the binary), in the order of the pipeline below.
\<close>

definition linux_package :: "world \<Rightarrow> state \<Rightarrow> state" where
  "linux_package w s =
     (if flagShouldPackage s \<and> platform w = Linux then
        (let pathSymLinks = path_join w (pathPackage s) [''usr'', ''local'', ''bin''];
             linuxExecPath = path_join w ''/opt''
                 [idx (settings s) ''name'', idx (settings s) ''executable''];
             s1 = emit (CreateDirectories pathSymLinks) s;
             s2 = emit (CreateSymlink linuxExecPath
                          (path_append w pathSymLinks (idx (settings s) ''executable''))) s1;
             archiveCommand = ''dpkg-deb --build --root-owner-group ''
                 @ pathToString w (pathPackage s2) @ '' ''
                 @ pathToString w (path_append w (target s2) (pathOutput s2));
             r = system w (trace s2) archiveCommand;
             s3 = emit (System archiveCommand) s2
         in if r \<noteq> 0
            then exit_process 1 (log ''error: failed to create deb package'' s3)
            else s3)
      else s)"

definition codesign_one :: "string \<Rightarrow> string \<Rightarrow> string \<Rightarrow> string" where
  "codesign_one entitlements identity path =
     '' codesign --force --options runtime --timestamp'' @ entitlements
       @ '' --sign '' @ sq @ ''Developer ID Application: '' @ identity @ sq @ '' '' @ path"

fun sign_paths :: "world \<Rightarrow> state \<Rightarrow> string \<Rightarrow> nat \<Rightarrow> string list \<Rightarrow> string" where
  "sign_paths w s entitlements i [] = []"
| "sign_paths w s entitlements i (p # ps) =
     (if i > 0 then '';'' else []) 
       @ codesign_one entitlements (idx (settings s) ''mac_sign'')
           (pathToString w (path_append w (pathResources s) p))
       @ sign_paths w s entitlements (Suc i) ps"

definition mac_codesign :: "world \<Rightarrow> state \<Rightarrow> state" where
  "mac_codesign w s =
     (if flagCodeSign s \<and> platform w = Mac then
        (let entitlementsPath = path_append w (pathResourcesRelativeToUserBuild s) ''entitlements.plist'';
             s1 = (if flagEntitlements s
                   then (let s0 = reads [''mac_entitlements''] s
                         in emit (CopyFile (path_append w (target s0) (idx (settings s0) ''mac_entitlements''))
                                    entitlementsPath) s0)
                   else s);
             entitlements = (if flagEntitlements s
                             then '' --entitlements '' @ pathToString w entitlementsPath else []);
             s2 = reads [''mac_sign_paths'', ''mac_sign''] s1;
             first = (if length (idx (settings s2) ''mac_sign_paths'') > 0
                      then sign_paths w s2 entitlements 0 (split_fn w (idx (settings s2) ''mac_sign_paths'') CHR '';'')
                      else []);
             signCommand = first
                @ '';'' @ codesign_one entitlements (idx (settings s2) ''mac_sign'')
                            (pathToString w (path_append w (pathBin s2) (executable s2)))
                @ '';'' @ codesign_one entitlements (idx (settings s2) ''mac_sign'')
                            (pathToString w (pathPackage s2));
             r = exec w (trace s2) signCommand;
             s3 = emit (Exec signCommand) s2
         in if exitCode r \<noteq> 0
            then exit_process (exitCode r) (log ''Unable to sign'' s3)
            else log ''finished code signing'' s3)
      else s)"

definition mac_package :: "world \<Rightarrow> state \<Rightarrow> state" where
  "mac_package w s =
     (if flagShouldPackage s \<and> platform w = Mac then
        (let s1 = s\<lparr>pathToArchive :=
                      path_join w (target s) [pathOutput s, idx (settings s) ''executable'' @ ''.zip'']\<rparr>;
             zipCommand = ''ditto -c -k --sequesterRsrc --keepParent ''
                 @ pathToString w (pathPackage s1) @ '' '' @ pathToString w (pathToArchive s1);
             r = system w (trace s1) zipCommand;
             s2 = emit (System zipCommand) s1
         in if r \<noteq> 0
            then exit_process 1 (log ''error: failed to create zip for notarization'' s2)
            else log ''craeted zip artifact'' s2)
      else s)"

text \<open>
  The Windows packaging block drives the operating system's package writer through its
  COM interface; it logs what happens and never ends the process. It is one event here.
\<close>

definition win_package :: "world \<Rightarrow> state \<Rightarrow> state" where
  "win_package w s =
     (if flagShouldPackage s \<and> platform w = Win then emit (AppxPackage (pathPackage s)) s else s)"

definition win_codesign :: "world \<Rightarrow> state \<Rightarrow> state" where
  "win_codesign w s =
     (if flagCodeSign s \<and> platform w = Win then
        (let pathToSignTool = environ s ''SIGNTOOL''
         in if length pathToSignTool = 0 then
              exit_process 1
                (log ''missing env var SIGNTOOL, should be the path to the Windows SDK signtool.exe binary.'' s)
            else
              (let password = environ s ''CSC_KEY_PASSWORD'';
                   signCommand = dq @ pathToSignTool @ dq
                     @ '' sign /debug /tr http://timestamp.digicert.com /td sha256 /fd sha256''
                     @ '' /f cert.pfx /p '' @ password @ '' '' @ pathToString w (pathPackage s)
                     @ ''.appx 2>&1 | tee sign.log'';
                   r = exec w (trace s) signCommand;
                   s1 = emit (Exec signCommand) s
               in if exitCode r \<noteq> 0 then
                    exit_process (exitCode r)
                      (log ''---'' (log (proc_output r) (log ''---''
                        (log ''---'' (log (pathPackage s1) (log ''---''
                          (log ''Unable to sign'' s1)))))))
                  else s1))
      else s)"

definition run_binary :: "world \<Rightarrow> state \<Rightarrow> state" where
  "run_binary w s =
     (if flagShouldRun s then
        (let execName = idx (settings s) ''executable'' @ (if platform w = Win then ''.exe'' else []);
             cmd = pathToString w (path_append w (pathBin s) execName)
         in emit (System cmd) s)
      else s)"

subsection \<open>Notarization\<close>

text \<open>
  Lines 592 to 698. \<^verbatim>\<open>std::regex_search\<close> with the patterns \<^verbatim>\<open>\nRequestUUID = (.+?)\n\<close> and
  \<^verbatim>\<open>\n *Status: (.+?)\n\<close> (ECMAScript grammar): the leftmost position of the text where
  the pattern matches. The dot matches every character but the line terminators, so the
  lazy group \<^verbatim>\<open>(.+?)\<close> followed by a line feed is the rest of the line: at least one
  character long, ended by a line feed, with no carriage return in it.
\<close>

definition line_char :: "char \<Rightarrow> bool" where
  "line_char c = (c \<noteq> nl \<and> c \<noteq> cr)"

definition capture_line :: "string \<Rightarrow> string option" where
  "capture_line s =
     (let m = takeWhile line_char s
      in if m \<noteq> [] \<and> (case dropWhile line_char s of [] \<Rightarrow> False | c # _ \<Rightarrow> c = nl)
         then Some m else None)"

definition uuid_prefix :: string where
  "uuid_prefix = nl # ''RequestUUID = ''"

definition match_uuid_at :: "string \<Rightarrow> string option" where
  "match_uuid_at s =
     (if prefix uuid_prefix s then capture_line (drop (length uuid_prefix) s) else None)"

definition match_status_at :: "string \<Rightarrow> string option" where
  "match_status_at s =
     (case s of
        [] \<Rightarrow> None
      | c # t \<Rightarrow>
          if c = nl then
            (let t' = dropWhile (\<lambda>x. x = CHR '' '') t
             in if prefix ''Status: '' t' then capture_line (drop (length ''Status: '') t') else None)
          else None)"

fun regex_search :: "(string \<Rightarrow> string option) \<Rightarrow> string \<Rightarrow> string option" where
  "regex_search m [] = m []"
| "regex_search m (c # cs) = (case m (c # cs) of Some x \<Rightarrow> Some x | None \<Rightarrow> regex_search m cs)"

definition match_str1 :: "(string \<Rightarrow> string option) \<Rightarrow> string \<Rightarrow> string" where
  "match_str1 m text = (case regex_search m text of Some x \<Rightarrow> x | None \<Rightarrow> [])"

definition notarizeStatusCommand :: "string \<Rightarrow> string \<Rightarrow> string \<Rightarrow> string" where
  "notarizeStatusCommand uuid username password =
     ''xcrun altool --notarization-info '' @ uuid @ '' -u '' @ username @ '' -p '' @ password"

definition notarizeHistoryCommand :: "string \<Rightarrow> string \<Rightarrow> string" where
  "notarizeHistoryCommand username password =
     ''xcrun altool --notarization-history 0 -u '' @ username @ '' -p '' @ password"

definition rejected :: "world \<Rightarrow> string \<Rightarrow> string \<Rightarrow> string \<Rightarrow> state \<Rightarrow> state" where
  "rejected w lastStatus username password s =
     (let s1 = log lastStatus (log ''apple rejected the request for notarization'' s);
          r = exec w (trace s1) (notarizeHistoryCommand username password);
          s2 = emit (Exec (notarizeHistoryCommand username password)) s1
      in if exitCode r \<noteq> 0
         then exit_process (exitCode r) (log ''Unable to get notarization history'' s2)
         else exit_process 1 (log (proc_output r) s2))"

text \<open>
  One iteration of the poll loop after the test of the counter: what the body does, and
  whether the loop goes on (\<^verbatim>\<open>continue\<close>, or the end of the body) or is left
  (\<^verbatim>\<open>break\<close>, or \<^verbatim>\<open>exit\<close>). The last two tests of the body are on the same condition
  and its negation, so the end of the body is never reached from there; it is written
  out as in the source.
\<close>

datatype control = Continue state | Break state

definition poll_body :: "world \<Rightarrow> string \<Rightarrow> string \<Rightarrow> string \<Rightarrow> state \<Rightarrow> control" where
  "poll_body w uuid username password s =
     (let s1 = emit (Sleep (1024 * 6)) s;
          r = exec w (trace s1) (notarizeStatusCommand uuid username password);
          s2 = emit (Exec (notarizeStatusCommand uuid username password)) s1;
          status = match_str1 match_status_at (proc_output r)
      in if str_contains status ''in progress'' then
           Continue (log ''Checking for updates from apple'' s2)
         else if str_contains status ''invalid'' then
           Break (rejected w (proc_output r) username password s2)
         else if str_contains status ''success'' then
           Break (log ''successfully notarized'' s2)
         else if \<not> str_contains status ''success'' then
           Break (log ''apple was unable to notarize'' s2)
         else Continue s2)"

text \<open>
  The poll loop: \<open>requests\<close> is the counter before the iteration. The loop runs while the
  request identifier is not empty, and the identifier never changes.
\<close>

function poll_loop :: "world \<Rightarrow> string \<Rightarrow> string \<Rightarrow> string \<Rightarrow> nat \<Rightarrow> state \<Rightarrow> state" where
  "poll_loop w uuid username password requests s =
     (if uuid = [] then s
      else if requests + 1 > 1024 then
        exit_process 1 (log ''apple did not respond to the request for notarization'' s)
      else
        (case poll_body w uuid username password s of
           Continue s' \<Rightarrow> poll_loop w uuid username password (requests + 1) s'
         | Break s' \<Rightarrow> s'))"
  by pat_completeness auto
termination
  by (relation "measure (\<lambda>(w, uuid, username, password, requests, s). 1025 - requests)") auto

definition notarizeCommand :: "world \<Rightarrow> state \<Rightarrow> string" where
  "notarizeCommand w s =
     ''xcrun altool --notarize-app''
       @ '' --username '' @ dq @ environ s ''APPLE_ID'' @ dq
       @ '' --password '' @ dq @ environ s ''APPLE_ID_PASSWORD'' @ dq
       @ '' --primary-bundle-id '' @ dq @ idx (settings s) ''bundle_identifier'' @ dq
       @ '' --file '' @ dq @ pathToString w (pathToArchive s) @ dq"

definition notarize :: "world \<Rightarrow> state \<Rightarrow> state" where
  "notarize w s =
     (if flagShouldNotarize s \<and> platform w = Mac then
        (let username = environ s ''APPLE_ID'';
             password = environ s ''APPLE_ID_PASSWORD'';
             s0 = reads [''bundle_identifier''] s;
             r = exec w (trace s0) (notarizeCommand w s0);
             s1 = emit (Exec (notarizeCommand w s0)) s0
         in if exitCode r \<noteq> 0
            then exit_process (exitCode r) (log ''Unable to notarize'' s1)
            else
              (let uuid = match_str1 match_uuid_at (proc_output r);
                   s2 = log ''polling for notarization'' s1;
                   s3 = poll_loop w uuid username password 0 s2
               in if exit_code s3 = None then log ''finished notarization'' s3 else s3))
      else s)"

subsection \<open>The program\<close>

text \<open>
  \<open>argv\<close> is the whole argument vector, the program name first; the project directory
  is \<open>argv ! 1\<close>, read only when there are at least two arguments. The last step is the
  \<^verbatim>\<open>return 0\<close> of \<^verbatim>\<open>main\<close>.
\<close>

definition pipeline :: "world \<Rightarrow> string list \<Rightarrow> (state \<Rightarrow> state) list" where
  "pipeline w argv =
     [default_cxx w, parse_flags argv, load_settings w (argv ! 1), validate_settings,
      debug_mode, clean_output w, set_executable w,
      mac_prep w, linux_prep w, win_prep w, log ''package prepared'',
      user_build w, compile w,
      linux_package w, mac_codesign w, mac_package w, notarize w,
      win_package w, win_codesign w, run_binary w, exit_process 0]"

definition main :: "world \<Rightarrow> string list \<Rightarrow> state" where
  "main w argv =
     (if length argv < 2 then help_exit (initial_state w)
      else run_steps (pipeline w argv) (initial_state w))"

section \<open>Observations and example runs\<close>

text \<open>
  What the statements below observe of a state: the eight flags, the paths of the
  layout, and one settings key at a time.
\<close>

definition flag_values :: "state \<Rightarrow> bool list" where
  "flag_values s =
     [flagRunUserBuild s, flagAppStore s, flagCodeSign s, flagShouldRun s,
      flagEntitlements s, flagShouldNotarize s, flagDebugMode s, flagShouldPackage s]"

definition layout_values :: "state \<Rightarrow> string list" where
  "layout_values s =
     [target s, pathOutput s, executable s, packageName s, pathPackage s, pathBin s,
      pathResources s, pathResourcesRelativeToUserBuild s]"

definition frame :: "string \<Rightarrow> state \<Rightarrow> bool list \<times> string list \<times> string option" where
  "frame k s = (flag_values s, layout_values s, settings s k)"

text \<open>
  The settings as loaded for a project directory, and what the validation asks of them.
\<close>

definition loaded_settings :: "world \<Rightarrow> string list \<Rightarrow> (string \<rightharpoonup> string)" where
  "loaded_settings w argv = parseConfig w (readFile w (path_append w (argv ! 1) ''settings.config''))"

definition passes_validation :: "(string \<rightharpoonup> string) \<Rightarrow> bool" where
  "passes_validation m = (m ''_cmd'' \<noteq> None \<and> list_all (\<lambda>k. m k \<noteq> None) required)"

definition no_help :: "string list \<Rightarrow> bool" where
  "no_help argv = list_all (\<lambda>a. \<not> str_contains a ''-h'') argv"

definition debug_enabled :: "string list \<Rightarrow> bool" where
  "debug_enabled argv = list_all (\<lambda>a. \<not> str_contains a ''-xd'') argv"

text \<open>The state in which the user's build command is about to run: the first eleven steps.\<close>

definition prepared :: "world \<Rightarrow> string list \<Rightarrow> state" where
  "prepared w argv = run_steps (take 11 (pipeline w argv)) (initial_state w)"

text \<open>
  The source composes paths and never normalises them; where a path leads is decided by
  the file system, which resolves the components \<^verbatim>\<open>.\<close> and \<^verbatim>\<open>..\<close> when the path is
  used. On Windows a path may begin with a root name, and both the slash and the
  backslash separate. \<open>win_root_name_length\<close> is the length of the root name as the
  standard library of the Microsoft tool chain parses it: a drive (a letter and a
  colon); one of the device prefixes (two separators and \<^verbatim>\<open>?\<close> or \<^verbatim>\<open>.\<close>, or a separator
  and \<^verbatim>\<open>??\<close>, before a single separator); or a server (two separators and the name up to
  the next separator). A path with a drive is absolute when a separator follows the
  drive, any other path when it has a root name.
\<close>

definition win_slash :: "char \<Rightarrow> bool" where
  "win_slash c = (c = CHR ''/'' \<or> c = CHR 0x5C)"

definition is_letter :: "char \<Rightarrow> bool" where
  "is_letter c = ((65 \<le> (of_char c :: nat) \<and> (of_char c :: nat) \<le> 90) \<or>
                  (97 \<le> (of_char c :: nat) \<and> (of_char c :: nat) \<le> 122))"

definition has_drive :: "string \<Rightarrow> bool" where
  "has_drive p = (2 \<le> length p \<and> is_letter (p ! 0) \<and> p ! 1 = CHR '':'')"

definition win_root_name_length :: "string \<Rightarrow> nat" where
  "win_root_name_length p =
     (if length p < 2 then 0
      else if has_drive p then 2
      else if \<not> win_slash (p ! 0) then 0
      else if 4 \<le> length p \<and> win_slash (p ! 3) \<and> (length p = 4 \<or> \<not> win_slash (p ! 4)) \<and>
              ((win_slash (p ! 1) \<and> (p ! 2 = CHR ''?'' \<or> p ! 2 = CHR ''.'')) \<or>
               (p ! 1 = CHR ''?'' \<and> p ! 2 = CHR ''?''))
        then 3
      else if 3 \<le> length p \<and> win_slash (p ! 1) \<and> \<not> win_slash (p ! 2)
        then 3 + length (takeWhile (\<lambda>c. \<not> win_slash c) (drop 3 p))
      else 0)"

definition win_has_root_directory :: "string \<Rightarrow> bool" where
  "win_has_root_directory p =
     (win_root_name_length p < length p \<and> win_slash (p ! win_root_name_length p))"

definition win_is_absolute :: "string \<Rightarrow> bool" where
  "win_is_absolute p =
     (if has_drive p then 3 \<le> length p \<and> win_slash (p ! 2)
      else win_root_name_length p \<noteq> 0)"

text \<open>
  \<open>msvc_append\<close> is \<^verbatim>\<open>a / b\<close> of that library, the rule of the C++ standard with root
  names: a \<^verbatim>\<open>b\<close> that is absolute or has another root name than \<^verbatim>\<open>a\<close> replaces \<^verbatim>\<open>a\<close>; a
  \<^verbatim>\<open>b\<close> with a root directory keeps the root name of \<^verbatim>\<open>a\<close> only; otherwise a backslash
  is added when \<^verbatim>\<open>a\<close> does not end in a separator (when \<^verbatim>\<open>a\<close> is a root name and
  nothing else: when it has three characters or more, which a drive has not), and
  \<^verbatim>\<open>b\<close> follows without its root name. The composition of a
  run is the world's \<open>win_append\<close>; \<open>msvc_append\<close> is what a statement about the paths
  of Windows compares it with. \<open>win_joiner\<close> is the separator added after \<^verbatim>\<open>a\<close>, and
  \<open>win_relative\<close> a path with neither a root name nor a root directory.
\<close>

definition msvc_append :: "string \<Rightarrow> string \<Rightarrow> string" where
  "msvc_append a b =
     (if win_is_absolute b then b
      else if win_root_name_length b \<noteq> 0 \<and>
              take (win_root_name_length a) a \<noteq> take (win_root_name_length b) b then b
      else if win_has_root_directory b
        then take (win_root_name_length a) a @ drop (win_root_name_length b) b
      else if win_root_name_length a = length a
        then (if 3 \<le> length a then a @ bs @ drop (win_root_name_length b) b
              else a @ drop (win_root_name_length b) b)
      else if win_slash (last a) then a @ drop (win_root_name_length b) b
      else a @ bs @ drop (win_root_name_length b) b)"

definition win_joiner :: "string \<Rightarrow> string" where
  "win_joiner a =
     (if win_root_name_length a = length a then (if 3 \<le> length a then bs else [])
      else if win_slash (last a) then [] else bs)"

definition win_relative :: "string \<Rightarrow> bool" where
  "win_relative b =
     (win_root_name_length b = 0 \<and> (case b of [] \<Rightarrow> True | c # _ \<Rightarrow> \<not> win_slash c))"

text \<open>
  \<open>split_path\<close> cuts a path at its separators. \<open>walk\<close> follows one component from the
  directories entered so far, the innermost first: an empty component and \<^verbatim>\<open>.\<close> stay,
  \<^verbatim>\<open>..\<close> leaves the directory entered last, stays at the root of a rooted path, and is
  kept when a relative path climbs above the directory it starts in. \<open>resolved\<close> is the
  list of directories that a path leads through, after its root name. Symbolic links
  are not followed: the directories of a package are created by the run itself.
\<close>

definition is_separator :: "platform_os \<Rightarrow> char \<Rightarrow> bool" where
  "is_separator os c = (c = CHR ''/'' \<or> (os = Win \<and> c = CHR 0x5C))"

fun split_path :: "(char \<Rightarrow> bool) \<Rightarrow> string \<Rightarrow> string list" where
  "split_path f [] = [[]]"
| "split_path f (c # cs) =
     (if f c then [] # split_path f cs
      else (let r = split_path f cs in (c # hd r) # tl r))"

definition walk :: "bool \<Rightarrow> string list \<Rightarrow> string \<Rightarrow> string list" where
  "walk rooted st c =
     (if c = [] \<or> c = ''.'' then st
      else if c = ''..'' then
        (case st of
           [] \<Rightarrow> if rooted then [] else [''..'']
         | d # ds \<Rightarrow> if d = ''..'' then ''..'' # st else ds)
      else c # st)"

definition resolve :: "bool \<Rightarrow> string list \<Rightarrow> string list" where
  "resolve rooted cs = rev (foldl (walk rooted) [] cs)"

definition root_name_length :: "platform_os \<Rightarrow> string \<Rightarrow> nat" where
  "root_name_length os p = (if os = Win then win_root_name_length p else 0)"

definition is_rooted :: "platform_os \<Rightarrow> string \<Rightarrow> bool" where
  "is_rooted os p =
     (if os = Win then win_has_root_directory p \<or> win_is_absolute p else is_absolute p)"

definition resolved :: "platform_os \<Rightarrow> string \<Rightarrow> string list" where
  "resolved os p =
     resolve (is_rooted os p) (split_path (is_separator os) (drop (root_name_length os p) p))"

text \<open>
  A path descends from a root when both have the same root name, both or neither start
  at the root directory, and the directories that the path leads through continue those
  of the root without climbing: it is a descendant of the root, or the root itself.
  Two texts are the same path when they agree in all three.
  Paths that are appended to a directory one after the other stay inside it when none of
  them has a root name or starts with a separator, and together they do not climb above
  the directory.
\<close>

definition descends :: "platform_os \<Rightarrow> string \<Rightarrow> string \<Rightarrow> bool" where
  "descends os root p =
     (take (root_name_length os p) p = take (root_name_length os root) root \<and>
      is_rooted os p = is_rooted os root \<and>
      prefix (resolved os root) (resolved os p) \<and>
      ''..'' \<notin> set (drop (length (resolved os root)) (resolved os p)))"

definition same_path :: "platform_os \<Rightarrow> string \<Rightarrow> string \<Rightarrow> bool" where
  "same_path os p q =
     (take (root_name_length os p) p = take (root_name_length os q) q \<and>
      is_rooted os p = is_rooted os q \<and>
      resolved os p = resolved os q)"

definition is_relative :: "platform_os \<Rightarrow> string \<Rightarrow> bool" where
  "is_relative os b =
     (root_name_length os b = 0 \<and> (case b of [] \<Rightarrow> True | c # _ \<Rightarrow> \<not> is_separator os c))"

definition stays_inside :: "platform_os \<Rightarrow> string list \<Rightarrow> bool" where
  "stays_inside os ps =
     (list_all (is_relative os) ps \<and>
      ''..'' \<notin> set (resolve False (concat (map (split_path (is_separator os)) ps))))"

text \<open>Example runs: a project with the settings of a small application.\<close>

definition demo_settings :: "string \<rightharpoonup> string" where
  "demo_settings = map_of
     [(''name'', ''foo''), (''title'', ''Foo''), (''executable'', ''foo''),
      (''output'', ''dist''), (''version'', ''1.0''), (''arch'', ''amd64''),
      (''revision'', ''1''), (''_cmd'', ''true''), (''build'', ''make''),
      (''linux_icon'', ''icon.png'')]"

definition demo_world ::
  "platform_os \<Rightarrow> (string \<rightharpoonup> string) \<Rightarrow> (event list \<Rightarrow> string \<Rightarrow> proc_result) \<Rightarrow> world" where
  "demo_world os m ex =
     \<lparr>platform = os, initial_env = (\<lambda>_. []), initial_cwd = ''/home/u'', exec = ex,
      system = (\<lambda>_ _. 0), fs_exists = (\<lambda>_ _. False), readFile = (\<lambda>_. []),
      parseConfig = (\<lambda>_. m), tmpl = (\<lambda>_ _. []), prefixFile = (\<lambda>f. f),
      encodeURIComponent = (\<lambda>t. t), split_fn = (\<lambda>t c. [t]), pathToString = (\<lambda>p. p),
      win_append = msvc_append\<rparr>"

definition ok_exec :: "event list \<Rightarrow> string \<Rightarrow> proc_result" where
  "ok_exec tr c = \<lparr>exitCode = 0, proc_output = []\<rparr>"

text \<open>The suffix that debug mode appends, for the command line of a run.\<close>

definition dev_suffix :: "string list \<Rightarrow> string" where
  "dev_suffix argv = (if debug_enabled argv then ''-dev'' else [])"

text \<open>Settings with every mandatory key whose \<^verbatim>\<open>name\<close> is an absolute path.\<close>

definition abs_name_settings :: "string \<rightharpoonup> string" where
  "abs_name_settings = demo_settings(''name'' \<mapsto> ''/x'')"

text \<open>
  Settings with every mandatory key whose \<^verbatim>\<open>name\<close> climbs out of the directory it is
  appended to, and settings whose \<^verbatim>\<open>executable\<close> does; a Windows host whose working
  directory is on drive \<^verbatim>\<open>C:\<close> and whose path composition is \<open>msvc_append\<close>.
\<close>

definition climbing_name_settings :: "string \<rightharpoonup> string" where
  "climbing_name_settings = demo_settings(''name'' \<mapsto> ''../../x'')"

definition climbing_executable_settings :: "string \<rightharpoonup> string" where
  "climbing_executable_settings = demo_settings(''executable'' \<mapsto> ''../x'')"

definition windows_world :: "(string \<rightharpoonup> string) \<Rightarrow> world" where
  "windows_world m = (demo_world Win m ok_exec)\<lparr>initial_cwd := ''C:'' @ bs @ ''work''\<rparr>"

text \<open>
  The six settings of the Linux scenario of the specification, and the same with a
  \<^verbatim>\<open>_cmd\<close> key.
\<close>

definition scenario_settings :: "string \<rightharpoonup> string" where
  "scenario_settings = map_of
     [(''name'', ''foo''), (''executable'', ''foo''), (''output'', ''dist''),
      (''version'', ''1.0''), (''arch'', ''amd64''), (''revision'', ''1'')]"

definition scenario_settings_with_command :: "string \<rightharpoonup> string" where
  "scenario_settings_with_command = scenario_settings(''_cmd'' \<mapsto> ''true'')"

text \<open>
  A settings file that names the build command of the platform as \<^verbatim>\<open>linux_cmd\<close>, with
  every mandatory key.
\<close>

definition linux_cmd_settings :: "string \<rightharpoonup> string" where
  "linux_cmd_settings = map_of
     [(''name'', ''foo''), (''title'', ''Foo''), (''executable'', ''foo''),
      (''output'', ''dist''), (''version'', ''1.0''), (''arch'', ''amd64''),
      (''revision'', ''1''), (''linux_cmd'', ''true''), (''build'', ''make'')]"

definition failing_exec :: "int \<Rightarrow> event list \<Rightarrow> string \<Rightarrow> proc_result" where
  "failing_exec code tr c = \<lparr>exitCode = code, proc_output = []\<rparr>"

text \<open>The answer of the user's build command in the step that starts in state \<open>s\<close>.\<close>

definition user_build_result :: "world \<Rightarrow> state \<Rightarrow> proc_result" where
  "user_build_result w s =
     exec w (trace s @ [Chdir (path_append w (cwd s) (target s)), Log (buildCommand w s)])
       (buildCommand w s)"

text \<open>The compile command of the step that starts in state \<open>s\<close>, and the compiler's answer.\<close>

definition compile_command_of :: "world \<Rightarrow> state \<Rightarrow> string" where
  "compile_command_of w s =
     compileCommand w (s\<lparr>settings_text := encodeURIComponent w (settings_text s)\<rparr>)"

definition compile_result :: "world \<Rightarrow> state \<Rightarrow> proc_result" where
  "compile_result w s = exec w (trace s) (compile_command_of w s)"

text \<open>
  The notarization step: the answer of the submit command in the step that starts in
  state \<open>s\<close>; in an iteration of the poll loop that starts in state \<open>s\<close>, the answer of
  the status command, the status phrase taken from it, and the state after the query;
  the answer of the history command after a rejection.
\<close>

definition submit_result :: "world \<Rightarrow> state \<Rightarrow> proc_result" where
  "submit_result w s = exec w (trace s) (notarizeCommand w s)"

definition request_uuid :: "world \<Rightarrow> state \<Rightarrow> string" where
  "request_uuid w s = match_str1 match_uuid_at (proc_output (submit_result w s))"

definition status_result :: "world \<Rightarrow> string \<Rightarrow> string \<Rightarrow> string \<Rightarrow> state \<Rightarrow> proc_result" where
  "status_result w uuid username password s =
     exec w (trace s @ [Sleep (1024 * 6)]) (notarizeStatusCommand uuid username password)"

definition status_of :: "world \<Rightarrow> string \<Rightarrow> string \<Rightarrow> string \<Rightarrow> state \<Rightarrow> string" where
  "status_of w uuid username password s =
     match_str1 match_status_at (proc_output (status_result w uuid username password s))"

definition queried :: "string \<Rightarrow> string \<Rightarrow> string \<Rightarrow> state \<Rightarrow> state" where
  "queried uuid username password s =
     emit (Exec (notarizeStatusCommand uuid username password)) (emit (Sleep (1024 * 6)) s)"

definition history_result :: "world \<Rightarrow> string \<Rightarrow> string \<Rightarrow> string \<Rightarrow> state \<Rightarrow> proc_result" where
  "history_result w lastStatus username password s =
     exec w (trace s @ [Log ''apple rejected the request for notarization'', Log lastStatus])
       (notarizeHistoryCommand username password)"

text \<open>
  The classification of a status phrase in the words of the specification: a phrase
  with ``in progress'' keeps the loop polling, one with ``invalid'' is a rejection, one
  with ``success'' is the success, anything else is a failure of its own kind. The
  cases are tried in this order.
\<close>

datatype verdict = Polling | Rejected | Success | Failed

definition classify_status :: "string \<Rightarrow> verdict" where
  "classify_status status =
     (if str_contains status ''in progress'' then Polling
      else if str_contains status ''invalid'' then Rejected
      else if str_contains status ''success'' then Success
      else Failed)"

definition count_events :: "event \<Rightarrow> event list \<Rightarrow> nat" where
  "count_events e tr = length (filter (\<lambda>x. x = e) tr)"

definition in_progress_exec :: "event list \<Rightarrow> string \<Rightarrow> proc_result" where
  "in_progress_exec tr c =
     \<lparr>exitCode = 0,
      proc_output = nl # ''RequestUUID = 1234-ABCD'' @ nl # ''  Status: in progress'' @ [nl]\<rparr>"

section \<open>Basic facts\<close>

declare poll_loop.simps [simp del]

subsection \<open>Sequencing and exits\<close>

lemma run_steps_exited: "exit_code s \<noteq> None \<Longrightarrow> run_steps fs s = s"
  by (cases fs) auto

lemma run_steps_append: "run_steps (fs @ gs) s = run_steps gs (run_steps fs s)"
  by (induction fs arbitrary: s) (auto simp: run_steps_exited)

lemma main_split:
  "2 \<le> length argv \<Longrightarrow> main w argv = run_steps (drop 11 (pipeline w argv)) (prepared w argv)"
proof -
  assume "2 \<le> length argv"
  then have "main w argv = run_steps (take 11 (pipeline w argv) @ drop 11 (pipeline w argv)) (initial_state w)"
    by (simp add: main_def)
  then show ?thesis
    unfolding run_steps_append prepared_def .
qed

lemma exit_code_emit [simp]: "exit_code (emit e s) = exit_code s"
  by (simp add: emit_def)

lemma exit_code_log [simp]: "exit_code (log m s) = exit_code s"
  by (simp add: log_def)

lemma exit_code_exit [simp]: "exit_code (exit_process c s) = Some c"
  by (simp add: exit_process_def)

lemma exit_code_reads [simp]: "exit_code (reads ks s) = exit_code s"
  by (simp add: reads_def)

lemma exit_code_default_cxx [simp]: "exit_code (default_cxx w s) = exit_code s"
  by (simp add: default_cxx_def Let_def)

lemma exit_code_load_settings [simp]: "exit_code (load_settings w t s) = exit_code s"
  by (simp add: load_settings_def Let_def)

lemma exit_code_debug_mode [simp]: "exit_code (debug_mode s) = exit_code s"
  by (simp add: debug_mode_def)

lemma exit_code_clean_output [simp]: "exit_code (clean_output w s) = exit_code s"
  by (simp add: clean_output_def Let_def)

lemma exit_code_set_executable [simp]: "exit_code (set_executable w s) = exit_code s"
  by (simp add: set_executable_def)

lemma exit_code_mac_prep [simp]: "exit_code (mac_prep w s) = exit_code s"
  by (simp add: mac_prep_def Let_def)

lemma exit_code_linux_parts [simp]:
  "exit_code (linux_layout w s) = exit_code s"
  "exit_code (linux_directories w s) = exit_code s"
  "exit_code (linux_manifests w s) = exit_code s"
  "exit_code (linux_icon w s) = exit_code s"
  by (simp_all add: linux_layout_def linux_directories_def linux_manifests_def linux_icon_def Let_def)

lemma exit_code_linux_prep [simp]: "exit_code (linux_prep w s) = exit_code s"
  by (simp add: linux_prep_def)

lemma exit_code_win_prep [simp]: "exit_code (win_prep w s) = exit_code s"
  by (simp add: win_prep_def Let_def)

lemma check_required_ok:
  "list_all (\<lambda>k. settings s k \<noteq> None) ks \<Longrightarrow> check_required ks s = s"
  by (induction ks) auto

lemma validate_ok:
  assumes "passes_validation (settings s)"
  shows "validate_settings s = s"
proof -
  from assms have a: "settings s ''_cmd'' \<noteq> None"
    and b: "list_all (\<lambda>k. settings s k \<noteq> None) required"
    by (simp_all add: passes_validation_def del: not_None_eq)
  show ?thesis
    using a by (auto simp add: validate_settings_def check_required_ok [OF b])
qed

lemma parse_arg_exit:
  "exit_code (parse_arg arg s) = (if str_contains arg ''-h'' then Some 0 else exit_code s)"
  by (simp add: parse_arg_def Let_def help_exit_def exit_process_def emit_def)

lemma parse_flags_no_help:
  "no_help argv \<Longrightarrow> exit_code (parse_flags argv s) = exit_code s"
  by (induction argv arbitrary: s) (auto simp: parse_arg_exit Let_def no_help_def)

lemma settings_load [simp]: "settings (load_settings w t s) = parseConfig w (readFile w (path_append w t ''settings.config''))"
  by (simp add: load_settings_def Let_def)

lemma prepared_eq:
  assumes "no_help argv" "passes_validation (loaded_settings w argv)"
  shows "prepared w argv =
     log ''package prepared'' (win_prep w (linux_prep w (mac_prep w (set_executable w
       (clean_output w (debug_mode (load_settings w (argv ! 1)
          (parse_flags argv (default_cxx w (initial_state w))))))))))"
proof -
  have i: "exit_code (initial_state w) = None" by (simp add: initial_state_def)
  have v: "validate_settings (load_settings w (argv ! 1) (parse_flags argv (default_cxx w (initial_state w))))
      = load_settings w (argv ! 1) (parse_flags argv (default_cxx w (initial_state w)))"
    using assms(2) by (intro validate_ok) (simp add: loaded_settings_def)
  show ?thesis
    using assms(1) i v by (simp add: prepared_def pipeline_def parse_flags_no_help)
qed


subsection \<open>What the steps leave alone\<close>

lemma touch_other: "k \<noteq> k' \<Longrightarrow> touch k' m k = m k"
  by (simp add: touch_def split: option.split)

lemma fold_touch_other: "k \<notin> set ks \<Longrightarrow> fold touch ks m k = m k"
  by (induction ks arbitrary: m) (auto simp: touch_other)

lemma idx_touch [simp]: "idx (touch k' m) k = idx m k"
  by (simp add: idx_def touch_def split: option.split)

lemma idx_fold_touch [simp]: "idx (fold touch ks m) k = idx m k"
  by (induction ks arbitrary: m) auto

lemma flag_values_emit [simp]: "flag_values (emit e s) = flag_values s"
  by (simp add: flag_values_def emit_def)

lemma flag_values_log [simp]: "flag_values (log m s) = flag_values s"
  by (simp add: log_def)

lemma flag_values_exit [simp]: "flag_values (exit_process c s) = flag_values s"
  by (simp add: flag_values_def exit_process_def)

lemma flag_values_reads [simp]: "flag_values (reads ks s) = flag_values s"
  by (simp add: flag_values_def reads_def)

lemma flag_values_update [simp]:
  "flag_values (s\<lparr>settings := a\<rparr>) = flag_values s"
  "flag_values (s\<lparr>settings_text := b\<rparr>) = flag_values s"
  "flag_values (s\<lparr>environ := c\<rparr>) = flag_values s"
  "flag_values (s\<lparr>cwd := d\<rparr>) = flag_values s"
  "flag_values (s\<lparr>target := t\<rparr>) = flag_values s"
  "flag_values (s\<lparr>pathOutput := t\<rparr>) = flag_values s"
  "flag_values (s\<lparr>executable := t\<rparr>) = flag_values s"
  "flag_values (s\<lparr>flags := t\<rparr>) = flag_values s"
  "flag_values (s\<lparr>files := t\<rparr>) = flag_values s"
  "flag_values (s\<lparr>pathBin := t\<rparr>) = flag_values s"
  "flag_values (s\<lparr>pathResources := t\<rparr>) = flag_values s"
  "flag_values (s\<lparr>pathResourcesRelativeToUserBuild := t\<rparr>) = flag_values s"
  "flag_values (s\<lparr>pathPackage := t\<rparr>) = flag_values s"
  "flag_values (s\<lparr>pathToArchive := t\<rparr>) = flag_values s"
  "flag_values (s\<lparr>packageName := t\<rparr>) = flag_values s"
  by (simp_all add: flag_values_def)

lemma layout_values_emit [simp]: "layout_values (emit e s) = layout_values s"
  by (simp add: layout_values_def emit_def)

lemma layout_values_log [simp]: "layout_values (log m s) = layout_values s"
  by (simp add: log_def)

lemma layout_values_exit [simp]: "layout_values (exit_process c s) = layout_values s"
  by (simp add: layout_values_def exit_process_def)

lemma layout_values_reads [simp]: "layout_values (reads ks s) = layout_values s"
  by (simp add: layout_values_def reads_def)

lemma layout_values_update [simp]:
  "layout_values (s\<lparr>settings := a\<rparr>) = layout_values s"
  "layout_values (s\<lparr>settings_text := b\<rparr>) = layout_values s"
  "layout_values (s\<lparr>environ := c\<rparr>) = layout_values s"
  "layout_values (s\<lparr>cwd := d\<rparr>) = layout_values s"
  "layout_values (s\<lparr>flags := t\<rparr>) = layout_values s"
  "layout_values (s\<lparr>files := t\<rparr>) = layout_values s"
  "layout_values (s\<lparr>pathToArchive := t\<rparr>) = layout_values s"
  by (simp_all add: layout_values_def)

lemma settings_emit [simp]: "settings (emit e s) = settings s"
  by (simp add: emit_def)

lemma settings_log [simp]: "settings (log m s) = settings s"
  by (simp add: log_def)

lemma settings_exit [simp]: "settings (exit_process c s) = settings s"
  by (simp add: exit_process_def)

lemma settings_reads: "k \<notin> set ks \<Longrightarrow> settings (reads ks s) k = settings s k"
  by (simp add: reads_def fold_touch_other)

lemma idx_settings_reads [simp]: "idx (settings (reads ks s)) k = idx (settings s) k"
  by (simp add: reads_def)

lemma trace_reads [simp]: "trace (reads ks s) = trace s"
  by (simp add: reads_def)

lemma trace_emit [simp]: "trace (emit e s) = trace s @ [e]"
  by (simp add: emit_def)

lemma trace_log [simp]: "trace (log m s) = trace s @ [Log m]"
  by (simp add: log_def)

lemma trace_exit [simp]: "trace (exit_process c s) = trace s"
  by (simp add: exit_process_def)

lemma required_not_read:
  "k \<in> set required \<Longrightarrow>
     k \<notin> {''revision'', ''linux_icon'', ''linux_executable_path'', ''linux_icon_path'', ''build'',
            ''debug_flags'', ''flags'', ''mac_entitlements'', ''mac_sign_paths'', ''mac_sign'',
            ''bundle_identifier''}"
  by (auto simp: required_def)

lemma frame_emit [simp]: "frame k (emit e s) = frame k s"
  by (simp add: frame_def)

lemma frame_log [simp]: "frame k (log m s) = frame k s"
  by (simp add: frame_def)

lemma frame_exit [simp]: "frame k (exit_process c s) = frame k s"
  by (simp add: frame_def)

lemma frame_reads: "k \<notin> set ks \<Longrightarrow> frame k (reads ks s) = frame k s"
  by (simp add: frame_def settings_reads)

lemma frame_update [simp]:
  "frame k (s\<lparr>settings_text := b\<rparr>) = frame k s"
  "frame k (s\<lparr>cwd := d\<rparr>) = frame k s"
  "frame k (s\<lparr>pathToArchive := t\<rparr>) = frame k s"
  by (simp_all add: frame_def)

lemma frame_user_build: "k \<in> set required \<Longrightarrow> frame k (user_build w s) = frame k s"
  using required_not_read [of k] by (simp add: user_build_def Let_def frame_reads)

lemma frame_compile: "k \<in> set required \<Longrightarrow> frame k (compile w s) = frame k s"
  using required_not_read [of k] by (simp add: compile_def Let_def frame_reads)

lemma frame_linux_package: "frame k (linux_package w s) = frame k s"
  by (simp add: linux_package_def Let_def)

lemma frame_mac_codesign: "k \<in> set required \<Longrightarrow> frame k (mac_codesign w s) = frame k s"
  using required_not_read [of k] by (simp add: mac_codesign_def Let_def frame_reads)

lemma frame_mac_package: "frame k (mac_package w s) = frame k s"
  by (simp add: mac_package_def Let_def)

lemma frame_win_package: "frame k (win_package w s) = frame k s"
  by (simp add: win_package_def)

lemma frame_win_codesign: "frame k (win_codesign w s) = frame k s"
  by (simp add: win_codesign_def Let_def)

lemma frame_run_binary: "frame k (run_binary w s) = frame k s"
  by (simp add: run_binary_def Let_def)

lemma frame_rejected [simp]: "frame k (rejected w t u p s) = frame k s"
  by (simp add: rejected_def Let_def)

lemma frame_poll_body:
  "poll_body w uuid u p s = Continue s' \<or> poll_body w uuid u p s = Break s' \<Longrightarrow> frame k s' = frame k s"
  by (auto simp add: poll_body_def Let_def split: if_splits)

lemma frame_poll_loop: "frame k (poll_loop w uuid u p n s) = frame k s"
proof (induction w uuid u p n s rule: poll_loop.induct)
  case (1 w uuid username password requests s)
  show ?case
  proof (cases "poll_body w uuid username password s")
    case (Continue s')
    with 1 frame_poll_body [of w uuid username password s s' k] show ?thesis
      by (simp add: poll_loop.simps [of w uuid username password requests s])
  next
    case (Break s')
    with frame_poll_body [of w uuid username password s s' k] show ?thesis
      by (simp add: poll_loop.simps [of w uuid username password requests s])
  qed
qed

lemma frame_notarize: "k \<in> set required \<Longrightarrow> frame k (notarize w s) = frame k s"
  using required_not_read [of k] by (simp add: notarize_def Let_def frame_poll_loop frame_reads)

lemma run_steps_frame:
  "(\<And>f s. f \<in> set fs \<Longrightarrow> g (f s) = g s) \<Longrightarrow> g (run_steps fs s) = g s"
  by (induction fs arbitrary: s) auto

lemma frame_after_prepared:
  assumes "k \<in> set required"
  shows "frame k (run_steps (drop 11 (pipeline w argv)) s) = frame k s"
proof (rule run_steps_frame)
  fix f s
  assume "f \<in> set (drop 11 (pipeline w argv))"
  then show "frame k (f s) = frame k s"
    using assms
    by (auto simp add: pipeline_def frame_user_build frame_compile frame_linux_package
        frame_mac_codesign frame_mac_package frame_notarize frame_win_package
        frame_win_codesign frame_run_binary)
qed

lemma frame_main:
  "2 \<le> length argv \<Longrightarrow> k \<in> set required \<Longrightarrow> frame k (main w argv) = frame k (prepared w argv)"
  by (simp add: main_split frame_after_prepared)

section \<open>The command line\<close>

lemma flag_values_default_cxx [simp]: "flag_values (default_cxx w s) = flag_values s"
  by (simp add: default_cxx_def Let_def)

lemma flag_values_load_settings [simp]: "flag_values (load_settings w t s) = flag_values s"
  by (simp add: load_settings_def Let_def)

lemma flag_values_check_required [simp]: "flag_values (check_required ks s) = flag_values s"
  by (induction ks) auto

lemma flag_values_validate [simp]: "flag_values (validate_settings s) = flag_values s"
  by (simp add: validate_settings_def)

lemma flag_values_debug_mode [simp]: "flag_values (debug_mode s) = flag_values s"
  by (simp add: debug_mode_def)

lemma flag_values_clean_output [simp]: "flag_values (clean_output w s) = flag_values s"
  by (simp add: clean_output_def Let_def)

lemma flag_values_set_executable [simp]: "flag_values (set_executable w s) = flag_values s"
  by (simp add: set_executable_def)

lemma flag_values_mac_prep [simp]: "flag_values (mac_prep w s) = flag_values s"
  by (simp add: mac_prep_def Let_def)

lemma flag_values_linux_parts [simp]:
  "flag_values (linux_layout w s) = flag_values s"
  "flag_values (linux_directories w s) = flag_values s"
  "flag_values (linux_manifests w s) = flag_values s"
  "flag_values (linux_icon w s) = flag_values s"
  by (simp_all add: linux_layout_def linux_directories_def linux_manifests_def linux_icon_def Let_def)

lemma flag_values_linux_prep [simp]: "flag_values (linux_prep w s) = flag_values s"
  by (simp add: linux_prep_def)

lemma flag_values_win_prep [simp]: "flag_values (win_prep w s) = flag_values s"
  by (simp add: win_prep_def Let_def)

lemma flag_values_after_prepared:
  "flag_values (run_steps (drop 11 (pipeline w argv)) s) = flag_values s"
  using frame_after_prepared [of "''name''" w argv s] by (simp add: frame_def required_def)

lemma flag_values_after_flags:
  "flag_values (run_steps (drop 2 (pipeline w argv)) s) = flag_values s"
proof -
  have "drop 2 (pipeline w argv) = take 9 (drop 2 (pipeline w argv)) @ drop 11 (pipeline w argv)"
    by (simp add: pipeline_def)
  moreover have "flag_values (run_steps (take 9 (drop 2 (pipeline w argv))) s) = flag_values s" for s
    by (rule run_steps_frame) (auto simp add: pipeline_def)
  ultimately show ?thesis
    by (metis run_steps_append flag_values_after_prepared)
qed

lemma main_after_flags:
  "2 \<le> length argv \<Longrightarrow>
     main w argv = run_steps (drop 2 (pipeline w argv)) (parse_flags argv (default_cxx w (initial_state w)))"
  by (simp add: main_def pipeline_def initial_state_def [of w, THEN arg_cong, of exit_code])

lemma parse_arg_values:
  "\<not> str_contains a ''-h'' \<Longrightarrow>
   flag_values (parse_arg a s) =
     [flagRunUserBuild s \<or> str_contains a ''-o'', flagAppStore s \<or> str_contains a ''-s'',
      flagCodeSign s \<or> str_contains a ''-c'', flagShouldRun s \<or> str_contains a ''-r'',
      flagEntitlements s \<or> str_contains a ''-me'', flagShouldNotarize s \<or> str_contains a ''-mn'',
      flagDebugMode s \<and> \<not> str_contains a ''-xd'', flagShouldPackage s \<or> str_contains a ''-p'']"
  by (simp add: parse_arg_def Let_def flag_values_def)

lemma parse_flags_values:
  "no_help argv \<Longrightarrow> exit_code s = None \<Longrightarrow> flag_values s = [fo, fs, fc, fr, fme, fmn, fd, fp] \<Longrightarrow>
   flag_values (parse_flags argv s) =
     [fo \<or> list_ex (\<lambda>a. str_contains a ''-o'') argv,
      fs \<or> list_ex (\<lambda>a. str_contains a ''-s'') argv,
      fc \<or> list_ex (\<lambda>a. str_contains a ''-c'') argv,
      fr \<or> list_ex (\<lambda>a. str_contains a ''-r'') argv,
      fme \<or> list_ex (\<lambda>a. str_contains a ''-me'') argv,
      fmn \<or> list_ex (\<lambda>a. str_contains a ''-mn'') argv,
      fd \<and> \<not> list_ex (\<lambda>a. str_contains a ''-xd'') argv,
      fp \<or> list_ex (\<lambda>a. str_contains a ''-p'') argv]"
proof (induction argv arbitrary: s fo fs fc fr fme fmn fd fp)
  case Nil
  then show ?case by simp
next
  case (Cons x argv)
  from Cons.prems have nh: "\<not> str_contains x ''-h''" and nr: "no_help argv"
    by (simp_all add: no_help_def)
  have e: "exit_code (parse_arg x s) = None"
    using nh Cons.prems by (simp add: parse_arg_exit)
  have v: "flag_values (parse_arg x s) =
     [fo \<or> str_contains x ''-o'', fs \<or> str_contains x ''-s'', fc \<or> str_contains x ''-c'',
      fr \<or> str_contains x ''-r'', fme \<or> str_contains x ''-me'', fmn \<or> str_contains x ''-mn'',
      fd \<and> \<not> str_contains x ''-xd'', fp \<or> str_contains x ''-p'']"
    using parse_arg_values [OF nh, of s] Cons.prems(3) by (simp add: flag_values_def)
  show ?case
    using Cons.IH [OF nr e v] e by (simp add: Let_def disj_assoc)
qed

lemma parse_flags_help:
  "exit_code s = None \<Longrightarrow> list_ex (\<lambda>a. str_contains a ''-h'') argv \<Longrightarrow>
     exit_code (parse_flags argv s) = Some 0 \<and>
     trace (parse_flags argv s) = trace s @ [Usage] \<and>
     settings (parse_flags argv s) = settings s"
proof (induction argv arbitrary: s)
  case Nil
  then show ?case by simp
next
  case (Cons a argv)
  show ?case
  proof (cases "str_contains a ''-h''")
    case True
    then show ?thesis
      by (simp add: parse_arg_def Let_def help_exit_def)
  next
    case False
    then have "exit_code (parse_arg a s) = None"
      and "trace (parse_arg a s) = trace s" and "settings (parse_arg a s) = settings s"
      using Cons.prems(1) by (simp_all add: parse_arg_def Let_def)
    with Cons False show ?thesis by simp
  qed
qed

text \<open>
  Claim C10. Flag detection is substring matching on every argument, the program name and
  the project directory included. With at least two arguments: when some argument
  contains \<^verbatim>\<open>-h\<close>, the run prints the usage and exits with 0 before the settings are
  read, having done nothing but the choice of the default compiler; otherwise each flag of
  the run is set exactly when some argument contains its text (\<^verbatim>\<open>-o\<close>, \<^verbatim>\<open>-s\<close>,
  \<^verbatim>\<open>-c\<close>, \<^verbatim>\<open>-r\<close>, \<^verbatim>\<open>-me\<close>, \<^verbatim>\<open>-mn\<close>, \<^verbatim>\<open>-p\<close>), and debug mode is on exactly
  when no argument contains \<^verbatim>\<open>-xd\<close>. The flags are those of the final state: no later
  step changes them.
\<close>

theorem C10_flags_by_substring:
  assumes "2 \<le> length argv"
  shows "if list_ex (\<lambda>a. str_contains a ''-h'') argv
         then exit_code (main w argv) = Some 0 \<and>
              trace (main w argv) = trace (default_cxx w (initial_state w)) @ [Usage] \<and>
              settings (main w argv) = Map.empty
         else flag_values (main w argv) =
              [list_ex (\<lambda>a. str_contains a ''-o'') argv,
               list_ex (\<lambda>a. str_contains a ''-s'') argv,
               list_ex (\<lambda>a. str_contains a ''-c'') argv,
               list_ex (\<lambda>a. str_contains a ''-r'') argv,
               list_ex (\<lambda>a. str_contains a ''-me'') argv,
               list_ex (\<lambda>a. str_contains a ''-mn'') argv,
               \<not> list_ex (\<lambda>a. str_contains a ''-xd'') argv,
               list_ex (\<lambda>a. str_contains a ''-p'') argv]"
proof (cases "list_ex (\<lambda>a. str_contains a ''-h'') argv")
  case True
  have i: "exit_code (default_cxx w (initial_state w)) = None"
    by (simp add: initial_state_def)
  have s: "settings (default_cxx w (initial_state w)) = Map.empty"
    by (simp add: default_cxx_def Let_def initial_state_def)
  from parse_flags_help [OF i True] s
  show ?thesis
    using True by (simp add: main_after_flags [OF assms] run_steps_exited)
next
  case False
  then have nh: "no_help argv"
    by (simp add: no_help_def list_ex_iff list_all_iff)
  have i: "exit_code (default_cxx w (initial_state w)) = None"
    by (simp add: initial_state_def)
  have "flag_values (main w argv) = flag_values (parse_flags argv (default_cxx w (initial_state w)))"
    by (simp add: main_after_flags [OF assms] flag_values_after_flags)
  moreover have "flag_values (initial_state w) =
      [False, False, False, False, False, False, True, False]"
    by (simp add: flag_values_def initial_state_def)
  then have "flag_values (default_cxx w (initial_state w)) =
      [False, False, False, False, False, False, True, False]"
    by simp
  ultimately show ?thesis
    using False parse_flags_values [OF nh i] by simp
qed

text \<open>
  Two runs: a project directory \<^verbatim>\<open>my-home\<close> is taken for a request for help, and a
  project directory \<^verbatim>\<open>app-core-rc1\<close> switches on code signing and running.
\<close>

theorem C10_flags_by_substring_witness:
  "exit_code (main (demo_world Linux demo_settings ok_exec) [''opkit'', ''my-home'']) = Some 0 \<and>
   trace (main (demo_world Linux demo_settings ok_exec) [''opkit'', ''my-home'']) =
     [Log ''warning! $CXX env var not set, assuming defaults'', SetEnv ''CXX'' ''/usr/bin/g++'', Usage] \<and>
   flag_values (main (demo_world Linux demo_settings ok_exec) [''opkit'', ''app-core-rc1'', ''-xd'']) =
     [False, False, True, True, False, False, False, False]"
  using C10_flags_by_substring [of "[''opkit'', ''my-home'']" "demo_world Linux demo_settings ok_exec"]
    C10_flags_by_substring [of "[''opkit'', ''app-core-rc1'', ''-xd'']" "demo_world Linux demo_settings ok_exec"]
  by (simp add: default_cxx_def Let_def initial_state_def demo_world_def)

section \<open>Validation of the settings\<close>

lemma check_required_missing:
  "\<not> list_all (\<lambda>k. settings s k \<noteq> None) ks \<Longrightarrow>
     exit_code (check_required ks s) = Some 1 \<and>
     (\<exists>k \<in> set ks. settings s k = None \<and>
        trace (check_required ks s) = trace s @ [Log (sq @ k @ sq @ '' key/value is required'')])"
  by (induction ks) (auto simp del: not_None_eq)

text \<open>
  Claim C9. The validation looks for a key that is literally \<^verbatim>\<open>_cmd\<close>. A settings file
  that names the build command of the platform (\<^verbatim>\<open>linux_cmd\<close>) and has every mandatory
  key is turned down on Linux: the run logs that one of \<^verbatim>\<open>win_cmd\<close>, \<^verbatim>\<open>mac_cmd\<close>,
  \<^verbatim>\<open>linux_cmd\<close> is required and exits with 1, before any path is derived.
\<close>

theorem C9_linux_cmd_is_not_accepted:
  "linux_cmd_settings ''linux_cmd'' = Some ''true'' \<and>
   list_all (\<lambda>k. linux_cmd_settings k \<noteq> None) required \<and>
   exit_code (main (demo_world Linux linux_cmd_settings ok_exec) [''opkit'', ''proj'']) = Some 1 \<and>
   trace (main (demo_world Linux linux_cmd_settings ok_exec) [''opkit'', ''proj'']) =
     [Log ''warning! $CXX env var not set, assuming defaults'', SetEnv ''CXX'' ''/usr/bin/g++'',
      Log cmd_message]"
  by code_simp

section \<open>The user build step\<close>

lemma buildCommand_reads [simp]: "buildCommand w (reads ks s) = buildCommand w s"
  by (simp add: buildCommand_def) (simp add: reads_def)

lemma buildCommand_update [simp]:
  "buildCommand w (emit e s) = buildCommand w s"
  "buildCommand w (s\<lparr>cwd := c\<rparr>) = buildCommand w s"
  by (simp_all add: buildCommand_def emit_def)

text \<open>
  Claim C4, as amended. The user build step changes into the project directory and runs
  the build command. When the command exits with 0, its output is logged and the
  original working directory is restored before the pipeline goes on. When it exits with
  another code, the run ends with that code at once; the working directory is still the
  project directory.
\<close>

theorem C4_cwd_restored_after_success:
  "if exitCode (user_build_result w s) = 0
   then cwd (user_build w s) = cwd s \<and>
        exit_code (user_build w s) = exit_code s \<and>
        trace (user_build w s) = trace s @
          [Chdir (path_append w (cwd s) (target s)), Log (buildCommand w s), Exec (buildCommand w s),
           Log (proc_output (user_build_result w s)), Log ''ran user build command'', Chdir (cwd s)]
   else cwd (user_build w s) = path_append w (cwd s) (target s) \<and>
        exit_code (user_build w s) = Some (exitCode (user_build_result w s)) \<and>
        trace (user_build w s) = trace s @
          [Chdir (path_append w (cwd s) (target s)), Log (buildCommand w s), Exec (buildCommand w s),
           Log ''Unable to run user build command'']"
  by (simp add: user_build_def user_build_result_def Let_def)
     (simp add: emit_def log_def exit_process_def reads_def)

theorem C4_cwd_restored_after_success_witness:
  "cwd (user_build (demo_world Linux demo_settings ok_exec)
          ((initial_state (demo_world Linux demo_settings ok_exec))\<lparr>target := ''proj''\<rparr>)) = ''/home/u'' \<and>
   exit_code (user_build (demo_world Linux demo_settings ok_exec)
          ((initial_state (demo_world Linux demo_settings ok_exec))\<lparr>target := ''proj''\<rparr>)) = None \<and>
   cwd (user_build (demo_world Linux demo_settings (failing_exec 2))
          ((initial_state (demo_world Linux demo_settings (failing_exec 2)))\<lparr>target := ''proj''\<rparr>)) = ''/home/u/proj'' \<and>
   exit_code (user_build (demo_world Linux demo_settings (failing_exec 2))
          ((initial_state (demo_world Linux demo_settings (failing_exec 2)))\<lparr>target := ''proj''\<rparr>)) = Some 2"
  using C4_cwd_restored_after_success [of "demo_world Linux demo_settings ok_exec"
      "(initial_state (demo_world Linux demo_settings ok_exec))\<lparr>target := ''proj''\<rparr>"]
    C4_cwd_restored_after_success [of "demo_world Linux demo_settings (failing_exec 2)"
      "(initial_state (demo_world Linux demo_settings (failing_exec 2)))\<lparr>target := ''proj''\<rparr>"]
  by (simp add: user_build_result_def demo_world_def ok_exec_def failing_exec_def initial_state_def
      path_append_def posix_append_def is_absolute_def has_filename_def)

text \<open>
  The claim as stated fails: a build command that exits with 2 ends the run with 2 in the
  project directory; the original directory is never entered again.
\<close>

theorem C4_counterexample:
  "exit_code (main (demo_world Linux demo_settings (failing_exec 2)) [''opkit'', ''proj'']) = Some 2 \<and>
   initial_cwd (demo_world Linux demo_settings (failing_exec 2)) = ''/home/u'' \<and>
   cwd (main (demo_world Linux demo_settings (failing_exec 2)) [''opkit'', ''proj'']) = ''/home/u/proj'' \<and>
   Chdir ''/home/u'' \<notin> set (trace (main (demo_world Linux demo_settings (failing_exec 2)) [''opkit'', ''proj'']))"
  by code_simp

section \<open>The compile step\<close>

lemma compileCommand_reads [simp]: "compileCommand w (reads ks s) = compileCommand w s"
  by (simp add: compileCommand_def extraFlags_def binaryPath_def) (simp add: reads_def)

lemma binaryPath_update [simp]:
  "binaryPath w (reads ks s) = binaryPath w s"
  "binaryPath w (s\<lparr>settings_text := t\<rparr>) = binaryPath w s"
  by (simp_all add: binaryPath_def reads_def)

text \<open>
  Claim C6. The compile step does nothing exactly when the flag set by \<^verbatim>\<open>-o\<close> is on and
  the file system says that something exists at the binary path. In every other case the
  compile command is run; a nonzero exit code of the compiler ends the run with that
  code. Nothing but the flag and the answer of the existence test enters the decision.
\<close>

theorem C6_compile_skipped_iff:
  "(trace (compile w s) = trace s) = (flagRunUserBuild s \<and> fs_exists w (trace s) (binaryPath w s)) \<and>
   (if flagRunUserBuild s \<and> fs_exists w (trace s) (binaryPath w s)
    then exit_code (compile w s) = exit_code s
    else trace (compile w s) = trace s @
           [Exec (compile_command_of w s),
            Log (if exitCode (compile_result w s) \<noteq> 0 then ''Unable to build''
                 else ''compiled native binary'')] \<and>
         exit_code (compile w s) =
           (if exitCode (compile_result w s) \<noteq> 0 then Some (exitCode (compile_result w s))
            else exit_code s))"
  by (simp add: compile_def compile_result_def compile_command_of_def Let_def)
     (simp add: reads_def)

theorem C6_compile_skipped_iff_witness:
  "trace (compile ((demo_world Linux demo_settings ok_exec)\<lparr>fs_exists := (\<lambda>tr p. True)\<rparr>)
            ((initial_state (demo_world Linux demo_settings ok_exec))\<lparr>flagRunUserBuild := True\<rparr>)) = [] \<and>
   trace (compile (demo_world Linux demo_settings ok_exec)
            ((initial_state (demo_world Linux demo_settings ok_exec))\<lparr>flagRunUserBuild := True\<rparr>)) =
     [Exec (compile_command_of (demo_world Linux demo_settings ok_exec)
              ((initial_state (demo_world Linux demo_settings ok_exec))\<lparr>flagRunUserBuild := True\<rparr>)),
      Log ''compiled native binary'']"
  using C6_compile_skipped_iff [of "(demo_world Linux demo_settings ok_exec)\<lparr>fs_exists := (\<lambda>tr p. True)\<rparr>"
      "(initial_state (demo_world Linux demo_settings ok_exec))\<lparr>flagRunUserBuild := True\<rparr>"]
    C6_compile_skipped_iff [of "demo_world Linux demo_settings ok_exec"
      "(initial_state (demo_world Linux demo_settings ok_exec))\<lparr>flagRunUserBuild := True\<rparr>"]
  by (simp add: demo_world_def initial_state_def compile_result_def ok_exec_def)

section \<open>Notarization\<close>

lemma poll_body_classified:
  "poll_body w uuid u p s =
     (case classify_status (status_of w uuid u p s) of
        Polling \<Rightarrow> Continue (log ''Checking for updates from apple'' (queried uuid u p s))
      | Rejected \<Rightarrow> Break (rejected w (proc_output (status_result w uuid u p s)) u p (queried uuid u p s))
      | Success \<Rightarrow> Break (log ''successfully notarized'' (queried uuid u p s))
      | Failed \<Rightarrow> Break (log ''apple was unable to notarize'' (queried uuid u p s)))"
  by (simp add: poll_body_def classify_status_def status_of_def status_result_def queried_def Let_def)

lemma rejected_outcome:
  "exit_code (rejected w t u p s) =
     Some (if exitCode (history_result w t u p s) \<noteq> 0 then exitCode (history_result w t u p s) else 1) \<and>
   trace (rejected w t u p s) = trace s @
     [Log ''apple rejected the request for notarization'', Log t, Exec (notarizeHistoryCommand u p),
      Log (if exitCode (history_result w t u p s) \<noteq> 0 then ''Unable to get notarization history''
           else proc_output (history_result w t u p s))]"
  by (simp add: rejected_def history_result_def Let_def)

lemma poll_loop_step:
  "uuid \<noteq> [] \<Longrightarrow> requests < 1024 \<Longrightarrow>
   poll_loop w uuid u p requests s =
     (case poll_body w uuid u p s of
        Continue s' \<Rightarrow> poll_loop w uuid u p (requests + 1) s'
      | Break s' \<Rightarrow> s')"
  by (simp add: poll_loop.simps [of w uuid u p requests s])

lemma poll_loop_ceiling:
  "uuid \<noteq> [] \<Longrightarrow> 1024 \<le> requests \<Longrightarrow>
   poll_loop w uuid u p requests s =
     exit_process 1 (log ''apple did not respond to the request for notarization'' s)"
  by (simp add: poll_loop.simps [of w uuid u p requests s])

lemma trace_queried [simp]:
  "trace (queried uuid u p s) = trace s @ [Sleep (1024 * 6), Exec (notarizeStatusCommand uuid u p)]"
  by (simp add: queried_def)

lemma exit_code_queried [simp]: "exit_code (queried uuid u p s) = exit_code s"
  by (simp add: queried_def)

lemma status_not_history: "notarizeStatusCommand uuid u p \<noteq> notarizeHistoryCommand u' p'"
  by (simp add: notarizeStatusCommand_def notarizeHistoryCommand_def)

lemma poll_loop_in_progress:
  assumes "uuid \<noteq> []"
    and "\<And>tr. str_contains (match_str1 match_status_at
            (proc_output (exec w tr (notarizeStatusCommand uuid u p)))) ''in progress''"
  shows "requests + k = 1024 \<Longrightarrow>
     exit_code (poll_loop w uuid u p requests s) = Some 1 \<and>
     trace (poll_loop w uuid u p requests s) =
       trace s @ concat (replicate k
           [Sleep (1024 * 6), Exec (notarizeStatusCommand uuid u p), Log ''Checking for updates from apple''])
         @ [Log ''apple did not respond to the request for notarization'']"
proof (induction k arbitrary: requests s)
  case 0
  then show ?case
    by (simp add: poll_loop_ceiling [OF assms(1)])
next
  case (Suc k)
  have c: "classify_status (status_of w uuid u p s) = Polling"
    using assms(2) by (simp add: classify_status_def status_of_def status_result_def)
  have lt: "requests < 1024" using Suc.prems by simp
  have "requests + 1 + k = 1024" using Suc.prems by simp
  from Suc.IH [OF this, of "log ''Checking for updates from apple'' (queried uuid u p s)"]
  show ?case
    by (simp add: poll_loop_step [OF assms(1) lt] poll_body_classified c)
qed

lemma count_events_append [simp]:
  "count_events e (xs @ ys) = count_events e xs + count_events e ys"
  by (simp add: count_events_def)

lemma count_events_Cons [simp]:
  "count_events e (x # xs) = (if x = e then 1 else 0) + count_events e xs"
  by (simp add: count_events_def)

lemma count_events_Nil [simp]: "count_events e [] = 0"
  by (simp add: count_events_def)

lemma poll_loop_bound:
  "count_events (Exec (notarizeStatusCommand uuid u p)) (trace (poll_loop w uuid u p requests s))
     \<le> count_events (Exec (notarizeStatusCommand uuid u p)) (trace s) + (1024 - requests)"
proof (induction w uuid u p requests s rule: poll_loop.induct)
  case (1 w uuid username password requests s)
  show ?case
  proof (cases "uuid = [] \<or> 1024 \<le> requests")
    case True
    then show ?thesis
      by (auto simp add: poll_loop.simps [of w uuid username password requests s])
  next
    case False
    then have u: "uuid \<noteq> []" and lt: "requests < 1024" by auto
    show ?thesis
    proof (cases "classify_status (status_of w uuid username password s)")
      case Polling
      then have b: "poll_body w uuid username password s =
          Continue (log ''Checking for updates from apple'' (queried uuid username password s))"
        by (simp add: poll_body_classified)
      from "1.IH" [OF _ _ b] u lt
      show ?thesis
        by (simp add: poll_loop_step [OF u lt] b)
    next
      case Rejected
      then show ?thesis
        using lt rejected_outcome [of w "proc_output (status_result w uuid username password s)"
            username password "queried uuid username password s"]
        by (simp add: poll_loop_step [OF u lt] poll_body_classified status_not_history [symmetric])
    next
      case Success
      then show ?thesis
        using lt by (simp add: poll_loop_step [OF u lt] poll_body_classified)
    next
      case Failed
      then show ?thesis
        using lt by (simp add: poll_loop_step [OF u lt] poll_body_classified)
    qed
  qed
qed


text \<open>
  Claim C2. In an iteration of the poll loop below the ceiling, the status phrase taken
  from the answer of the status command decides among four outcomes, tried in this
  order: with ``in progress'' in it the loop goes on with the next iteration; with
  ``invalid'' the rejection is logged, the history command is run, and the run ends with
  a nonzero exit code (the history is logged when the history command succeeded,
  otherwise the run ends with that command's code); with ``success'' the loop is left as
  a success; any other phrase, the empty phrase of an answer without a status line
  included, leaves the loop with the message of a failure. Only the first outcome goes
  on polling.
\<close>

theorem C2_status_classification:
  assumes "uuid \<noteq> []" and "requests < 1024"
  shows "case classify_status (status_of w uuid u p s) of
      Polling \<Rightarrow>
        poll_loop w uuid u p requests s =
          poll_loop w uuid u p (requests + 1)
            (log ''Checking for updates from apple'' (queried uuid u p s))
    | Rejected \<Rightarrow>
        poll_loop w uuid u p requests s =
          rejected w (proc_output (status_result w uuid u p s)) u p (queried uuid u p s) \<and>
        exit_code (poll_loop w uuid u p requests s) \<noteq> None \<and>
        exit_code (poll_loop w uuid u p requests s) \<noteq> Some 0 \<and>
        trace (poll_loop w uuid u p requests s) = trace (queried uuid u p s) @
          [Log ''apple rejected the request for notarization'',
           Log (proc_output (status_result w uuid u p s)),
           Exec (notarizeHistoryCommand u p),
           Log (if exitCode (history_result w (proc_output (status_result w uuid u p s)) u p (queried uuid u p s)) \<noteq> 0
                then ''Unable to get notarization history''
                else proc_output (history_result w (proc_output (status_result w uuid u p s)) u p (queried uuid u p s)))]
    | Success \<Rightarrow>
        poll_loop w uuid u p requests s = log ''successfully notarized'' (queried uuid u p s)
    | Failed \<Rightarrow>
        poll_loop w uuid u p requests s = log ''apple was unable to notarize'' (queried uuid u p s)"
  using rejected_outcome [of w "proc_output (status_result w uuid u p s)" u p "queried uuid u p s"]
  by (simp add: poll_loop_step [OF assms] poll_body_classified split: verdict.split)


lemma in_progress_status:
  "match_str1 match_status_at (proc_output (in_progress_exec tr c)) = ''in progress''"
  unfolding in_progress_exec_def proc_result.select_convs by code_simp

lemma no_status: "match_str1 match_status_at [] = []"
  by code_simp

theorem C2_status_classification_witness:
  "poll_loop (demo_world Mac demo_settings in_progress_exec) ''1234-ABCD'' ''me'' ''pw'' 0
       (initial_state (demo_world Mac demo_settings in_progress_exec)) =
     poll_loop (demo_world Mac demo_settings in_progress_exec) ''1234-ABCD'' ''me'' ''pw'' (0 + 1)
       (log ''Checking for updates from apple''
          (queried ''1234-ABCD'' ''me'' ''pw'' (initial_state (demo_world Mac demo_settings in_progress_exec)))) \<and>
   poll_loop (demo_world Mac demo_settings ok_exec) ''1234-ABCD'' ''me'' ''pw'' 0
       (initial_state (demo_world Mac demo_settings ok_exec)) =
     log ''apple was unable to notarize''
       (queried ''1234-ABCD'' ''me'' ''pw'' (initial_state (demo_world Mac demo_settings ok_exec)))"
  using C2_status_classification [of "''1234-ABCD''" 0 "demo_world Mac demo_settings in_progress_exec"
      "''me''" "''pw''" "initial_state (demo_world Mac demo_settings in_progress_exec)"]
    C2_status_classification [of "''1234-ABCD''" 0 "demo_world Mac demo_settings ok_exec"
      "''me''" "''pw''" "initial_state (demo_world Mac demo_settings ok_exec)"]
  by (simp add: classify_status_def status_of_def status_result_def demo_world_def
      in_progress_status ok_exec_def no_status)

lemma notarizeCommand_reads [simp]: "notarizeCommand w (reads ks s) = notarizeCommand w s"
  by (simp add: notarizeCommand_def) (simp add: reads_def)

lemma environ_reads [simp]: "environ (reads ks s) = environ s"
  by (simp add: reads_def)

lemma notarize_submitted:
  assumes "flagShouldNotarize s" and "platform w = Mac" and "exitCode (submit_result w s) = 0"
  shows "notarize w s =
     (let s3 = poll_loop w (request_uuid w s) (environ s ''APPLE_ID'') (environ s ''APPLE_ID_PASSWORD'') 0
                 (log ''polling for notarization'' (emit (Exec (notarizeCommand w s)) (reads [''bundle_identifier''] s)))
      in if exit_code s3 = None then log ''finished notarization'' s3 else s3)"
  using assms by (simp add: notarize_def Let_def submit_result_def request_uuid_def)

lemma submit_not_status: "notarizeCommand w s \<noteq> notarizeStatusCommand uuid u p"
  by (simp add: notarizeCommand_def notarizeStatusCommand_def)

text \<open>
  Claim C3. When the submission succeeded with a request identifier and every answer of
  the status command has ``in progress'' in its status phrase, the notarization step
  runs the status command exactly 1024 times, each after a pause of 6144 milliseconds,
  then logs that there was no response and ends the run with exit code 1. Whatever the
  answers are, a poll loop never adds more than 1024 status queries.
\<close>

theorem C3_poll_loop_ceiling:
  assumes "flagShouldNotarize s" and "platform w = Mac" and "exitCode (submit_result w s) = 0"
    and "request_uuid w s \<noteq> []"
    and "\<forall>tr. str_contains (match_str1 match_status_at (proc_output (exec w tr
            (notarizeStatusCommand (request_uuid w s) (environ s ''APPLE_ID'') (environ s ''APPLE_ID_PASSWORD'')))))
          ''in progress''"
  shows "exit_code (notarize w s) = Some 1 \<and>
     trace (notarize w s) =
       trace s @ [Exec (notarizeCommand w s), Log ''polling for notarization'']
         @ concat (replicate 1024
             [Sleep (1024 * 6),
              Exec (notarizeStatusCommand (request_uuid w s) (environ s ''APPLE_ID'') (environ s ''APPLE_ID_PASSWORD'')),
              Log ''Checking for updates from apple''])
         @ [Log ''apple did not respond to the request for notarization''] \<and>
     count_events (Exec (notarizeStatusCommand (request_uuid w s) (environ s ''APPLE_ID'') (environ s ''APPLE_ID_PASSWORD'')))
         (trace (notarize w s)) =
       count_events (Exec (notarizeStatusCommand (request_uuid w s) (environ s ''APPLE_ID'') (environ s ''APPLE_ID_PASSWORD'')))
         (trace s) + 1024 \<and>
     (\<forall>w' uuid u p n s'. count_events (Exec (notarizeStatusCommand uuid u p)) (trace (poll_loop w' uuid u p n s'))
        \<le> count_events (Exec (notarizeStatusCommand uuid u p)) (trace s') + 1024)"
proof -
  let ?u = "environ s ''APPLE_ID''" and ?p = "environ s ''APPLE_ID_PASSWORD''"
  let ?s2 = "log ''polling for notarization'' (emit (Exec (notarizeCommand w s)) (reads [''bundle_identifier''] s))"
  have a: "exit_code (poll_loop w (request_uuid w s) ?u ?p 0 ?s2) = Some 1 \<and>
     trace (poll_loop w (request_uuid w s) ?u ?p 0 ?s2) =
       trace ?s2 @ concat (replicate 1024
           [Sleep (1024 * 6), Exec (notarizeStatusCommand (request_uuid w s) ?u ?p),
            Log ''Checking for updates from apple''])
         @ [Log ''apple did not respond to the request for notarization'']"
    using poll_loop_in_progress [of "request_uuid w s" w ?u ?p 0 1024 ?s2] assms(4,5) by simp
  have c: "count_events e (concat (replicate k [Sleep n, e, Log m])) = k" if "e \<noteq> Sleep n" "e \<noteq> Log m"
    for e k n m using that by (induction k) auto
  have b: "count_events (Exec (notarizeStatusCommand uuid u p)) (trace (poll_loop w' uuid u p n s'))
        \<le> count_events (Exec (notarizeStatusCommand uuid u p)) (trace s') + 1024" for w' uuid u p n s'
    using poll_loop_bound [of uuid u p w' n s'] by simp
  show ?thesis
    using a b by (simp add: notarize_submitted [OF assms(1,2,3)] Let_def c submit_not_status)
qed

lemma demo_request_uuid:
  "request_uuid (demo_world Mac demo_settings in_progress_exec)
     ((initial_state (demo_world Mac demo_settings in_progress_exec))\<lparr>flagShouldNotarize := True\<rparr>)
   = ''1234-ABCD''"
  by code_simp

theorem C3_poll_loop_ceiling_witness:
  "exit_code (notarize (demo_world Mac demo_settings in_progress_exec)
     ((initial_state (demo_world Mac demo_settings in_progress_exec))\<lparr>flagShouldNotarize := True\<rparr>)) = Some 1 \<and>
   count_events (Exec (notarizeStatusCommand ''1234-ABCD'' [] []))
     (trace (notarize (demo_world Mac demo_settings in_progress_exec)
       ((initial_state (demo_world Mac demo_settings in_progress_exec))\<lparr>flagShouldNotarize := True\<rparr>))) = 1024"
proof -
  let ?W = "demo_world Mac demo_settings in_progress_exec"
  let ?S = "(initial_state ?W)\<lparr>flagShouldNotarize := True\<rparr>"
  have h1: "flagShouldNotarize ?S" by simp
  have h2: "platform ?W = Mac" by (simp add: demo_world_def)
  have h3: "exitCode (submit_result ?W ?S) = 0"
    by (simp add: submit_result_def demo_world_def in_progress_exec_def)
  have h4: "request_uuid ?W ?S \<noteq> []" by (simp only: demo_request_uuid) simp
  have e: "environ ?S ''APPLE_ID'' = []" "environ ?S ''APPLE_ID_PASSWORD'' = []" "trace ?S = []"
    by (simp_all add: initial_state_def demo_world_def)
  have h5: "\<forall>tr. str_contains (match_str1 match_status_at (proc_output (exec ?W tr
            (notarizeStatusCommand (request_uuid ?W ?S) (environ ?S ''APPLE_ID'') (environ ?S ''APPLE_ID_PASSWORD'')))))
          ''in progress''"
    by (simp add: demo_world_def in_progress_status)
  note r = C3_poll_loop_ceiling [OF h1 h2 h3 h4 h5]
  from r [THEN conjunct1] r [THEN conjunct2, THEN conjunct2, THEN conjunct1]
  show ?thesis
    unfolding demo_request_uuid e by simp
qed

text \<open>
  Claim C1, as amended. When the submit command succeeds and its output has no request
  identifier, the notarization step runs no status query and does not wait: it logs the
  start and the end of the polling and leaves the exit code alone. The pipeline goes on
  from there: on macOS the remaining steps are the optional run of the binary and the
  return of 0.
\<close>

theorem C1_no_identifier_no_polling:
  assumes "flagShouldNotarize s" and "platform w = Mac" and "exitCode (submit_result w s) = 0"
    and "regex_search match_uuid_at (proc_output (submit_result w s)) = None"
    and "exit_code s = None"
  shows "trace (notarize w s) =
       trace s @ [Exec (notarizeCommand w s), Log ''polling for notarization'', Log ''finished notarization''] \<and>
     exit_code (notarize w s) = None \<and>
     drop 16 (pipeline w argv) = [notarize w, win_package w, win_codesign w, run_binary w, exit_process 0] \<and>
     run_steps (drop 16 (pipeline w argv)) s = exit_process 0 (run_binary w (notarize w s)) \<and>
     exit_code (run_steps (drop 16 (pipeline w argv)) s) = Some 0"
proof -
  have u: "request_uuid w s = []"
    using assms(4) by (simp add: request_uuid_def match_str1_def)
  have n: "trace (notarize w s) =
       trace s @ [Exec (notarizeCommand w s), Log ''polling for notarization'', Log ''finished notarization'']"
    "exit_code (notarize w s) = None"
    using assms(5) by (simp_all add: notarize_submitted [OF assms(1,2,3)] u poll_loop.simps)
  have p: "drop 16 (pipeline w argv) = [notarize w, win_package w, win_codesign w, run_binary w, exit_process 0]"
    by (simp add: pipeline_def)
  have m: "win_package w x = x" "win_codesign w x = x" for x
    using assms(2) by (simp_all add: win_package_def win_codesign_def)
  have r: "exit_code (run_binary w x) = exit_code x" for x
    by (simp add: run_binary_def Let_def)
  show ?thesis
    using n assms(5) by (simp add: p m r)
qed

theorem C1_no_identifier_no_polling_witness:
  "trace (notarize (demo_world Mac demo_settings ok_exec)
     ((initial_state (demo_world Mac demo_settings ok_exec))\<lparr>flagShouldNotarize := True\<rparr>)) =
     [Exec (notarizeCommand (demo_world Mac demo_settings ok_exec)
        ((initial_state (demo_world Mac demo_settings ok_exec))\<lparr>flagShouldNotarize := True\<rparr>)),
      Log ''polling for notarization'', Log ''finished notarization''] \<and>
   exit_code (run_steps (drop 16 (pipeline (demo_world Mac demo_settings ok_exec) [''opkit'', ''proj'']))
     ((initial_state (demo_world Mac demo_settings ok_exec))\<lparr>flagShouldNotarize := True\<rparr>)) = Some 0"
proof -
  let ?W = "demo_world Mac demo_settings ok_exec"
  let ?S = "(initial_state ?W)\<lparr>flagShouldNotarize := True\<rparr>"
  have h1: "flagShouldNotarize ?S" by simp
  have h2: "platform ?W = Mac" by (simp add: demo_world_def)
  have h3: "exitCode (submit_result ?W ?S) = 0"
    by (simp add: submit_result_def demo_world_def ok_exec_def)
  have h4: "regex_search match_uuid_at (proc_output (submit_result ?W ?S)) = None"
    by code_simp
  have h5: "exit_code ?S = None" by (simp add: initial_state_def)
  have t: "trace ?S = []" by (simp add: initial_state_def)
  note r = C1_no_identifier_no_polling [OF h1 h2 h3 h4 h5, of "[''opkit'', ''proj'']"]
  from r [THEN conjunct1] r [THEN conjunct2, THEN conjunct2, THEN conjunct2, THEN conjunct2]
  show ?thesis
    unfolding t by simp
qed

text \<open>
  The claim as stated fails: with a submit command whose output has no request
  identifier, the run is not aborted. It logs that the notarization is finished, runs the
  binary and returns 0.
\<close>

theorem C1_counterexample:
  "regex_search match_uuid_at (proc_output (ok_exec [] [])) = None \<and>
   exit_code (main (demo_world Mac demo_settings ok_exec) [''opkit'', ''proj'', ''-p'', ''-mn'', ''-r'']) = Some 0 \<and>
   drop 20 (trace (main (demo_world Mac demo_settings ok_exec) [''opkit'', ''proj'', ''-p'', ''-mn'', ''-r''])) =
     [Log ''polling for notarization'', Log ''finished notarization'',
      System ''proj/dist/foo-dev.app/Contents/MacOS/foo-dev'']"
  by code_simp

section \<open>The prepared layout\<close>

lemma path_join_append: "path_join w (path_join w a xs) ys = path_join w a (xs @ ys)"
  by (induction xs arbitrary: a) auto

lemma idx_append_value:
  "idx (append_value k sfx m) k' = (if k' = k then idx m k @ sfx else idx m k')"
  by (simp add: append_value_def idx_def)

lemma append_value_present: "append_value k sfx m k' \<noteq> None \<longleftrightarrow> k' = k \<or> m k' \<noteq> None"
  by (simp add: append_value_def)

lemma parse_flags_debug:
  assumes "no_help argv" and "exit_code s = None"
  shows "flagDebugMode (parse_flags argv s) = (flagDebugMode s \<and> debug_enabled argv)"
  using assms
proof (induction argv arbitrary: s)
  case Nil
  then show ?case by (simp add: debug_enabled_def)
next
  case (Cons a argv)
  then have nh: "\<not> str_contains a ''-h''" and nr: "no_help argv"
    by (simp_all add: no_help_def)
  have e: "exit_code (parse_arg a s) = None"
    using nh Cons.prems by (simp add: parse_arg_exit)
  have d: "flagDebugMode (parse_arg a s) = (flagDebugMode s \<and> \<not> str_contains a ''-xd'')"
    using nh by (simp add: parse_arg_def Let_def)
  show ?case
    using Cons.IH [OF nr e] e d by (auto simp add: Let_def debug_enabled_def)
qed

lemma parse_flags_other [simp]:
  "settings (parse_flags argv s) = settings s"
  "cwd (parse_flags argv s) = cwd s"
  "layout_values (parse_flags argv s) = layout_values s"
proof -
  have "settings (parse_arg a s) = settings s \<and> cwd (parse_arg a s) = cwd s \<and>
        layout_values (parse_arg a s) = layout_values s" for a s
    by (simp add: parse_arg_def Let_def help_exit_def layout_values_def emit_def exit_process_def)
  then have "settings (parse_flags argv s) = settings s \<and> cwd (parse_flags argv s) = cwd s \<and>
        layout_values (parse_flags argv s) = layout_values s"
    by (induction argv arbitrary: s) (auto simp: Let_def)
  then show "settings (parse_flags argv s) = settings s" "cwd (parse_flags argv s) = cwd s"
    "layout_values (parse_flags argv s) = layout_values s"
    by simp_all
qed

text \<open>The state after the settings have been loaded, validated and given the debug suffix.\<close>

lemma debugged_state:
  fixes w argv
  defines "s \<equiv> debug_mode (load_settings w (argv ! 1) (parse_flags argv (default_cxx w (initial_state w))))"
  assumes "no_help argv"
  shows "idx (settings s) k =
           (if k \<in> {''name'', ''title'', ''executable''} then idx (loaded_settings w argv) k @ dev_suffix argv
            else idx (loaded_settings w argv) k)"
    and "target s = argv ! 1" and "cwd s = initial_cwd w"
proof -
  have i: "exit_code (default_cxx w (initial_state w)) = None"
    by (simp add: initial_state_def)
  have d: "flagDebugMode (parse_flags argv (default_cxx w (initial_state w))) = debug_enabled argv"
    using parse_flags_debug [OF assms(2) i]
    by (simp add: default_cxx_def Let_def initial_state_def log_def emit_def)
  show "idx (settings s) k =
           (if k \<in> {''name'', ''title'', ''executable''} then idx (loaded_settings w argv) k @ dev_suffix argv
            else idx (loaded_settings w argv) k)"
    using d by (auto simp add: s_def debug_mode_def load_settings_def Let_def idx_append_value
        loaded_settings_def dev_suffix_def)
  show "target s = argv ! 1"
    by (simp add: s_def debug_mode_def load_settings_def Let_def)
  have "cwd (default_cxx w (initial_state w)) = initial_cwd w"
    by (simp add: default_cxx_def Let_def initial_state_def log_def emit_def)
  then show "cwd s = initial_cwd w"
    by (simp add: s_def debug_mode_def load_settings_def Let_def)
qed


lemma clean_output_fields [simp]:
  "settings (clean_output w s) = settings s"
  "target (clean_output w s) = target s"
  "cwd (clean_output w s) = cwd s"
  "pathOutput (clean_output w s) = idx (settings s) ''output''"
  by (simp_all add: clean_output_def Let_def emit_def log_def)

lemma set_executable_fields [simp]:
  "settings (set_executable w s) = settings s"
  "target (set_executable w s) = target s"
  "cwd (set_executable w s) = cwd s"
  "pathOutput (set_executable w s) = pathOutput s"
  "executable (set_executable w s) = idx (settings s) ''executable'' @ (if platform w = Win then ''.exe'' else [])"
  by (simp_all add: set_executable_def)

lemma emit_fields [simp]:
  "target (emit e s) = target s" "cwd (emit e s) = cwd s" "pathOutput (emit e s) = pathOutput s"
  "executable (emit e s) = executable s" "packageName (emit e s) = packageName s"
  "pathPackage (emit e s) = pathPackage s" "pathBin (emit e s) = pathBin s"
  "pathResources (emit e s) = pathResources s"
  "pathResourcesRelativeToUserBuild (emit e s) = pathResourcesRelativeToUserBuild s"
  "environ (emit e s) = environ s" "files (emit e s) = files s" "flags (emit e s) = flags s"
  by (simp_all add: emit_def)

lemma log_fields [simp]:
  "target (log x s) = target s" "cwd (log x s) = cwd s" "pathOutput (log x s) = pathOutput s"
  "executable (log x s) = executable s" "packageName (log x s) = packageName s"
  "pathPackage (log x s) = pathPackage s" "pathBin (log x s) = pathBin s"
  "pathResources (log x s) = pathResources s"
  "pathResourcesRelativeToUserBuild (log x s) = pathResourcesRelativeToUserBuild s"
  "environ (log x s) = environ s" "files (log x s) = files s" "flags (log x s) = flags s"
  by (simp_all add: log_def)

lemma reads_fields [simp]:
  "target (reads ks s) = target s" "cwd (reads ks s) = cwd s" "pathOutput (reads ks s) = pathOutput s"
  "executable (reads ks s) = executable s" "packageName (reads ks s) = packageName s"
  "pathPackage (reads ks s) = pathPackage s" "pathBin (reads ks s) = pathBin s"
  "pathResources (reads ks s) = pathResources s"
  "pathResourcesRelativeToUserBuild (reads ks s) = pathResourcesRelativeToUserBuild s"
  "files (reads ks s) = files s" "flags (reads ks s) = flags s"
  by (simp_all add: reads_def)

lemma mac_prep_layout:
  "platform w = Mac \<Longrightarrow>
     target (mac_prep w s) = target s \<and> pathOutput (mac_prep w s) = pathOutput s \<and>
     executable (mac_prep w s) = executable s \<and> settings (mac_prep w s) = settings s \<and>
     packageName (mac_prep w s) = idx (settings s) ''name'' @ ''.app'' \<and>
     pathPackage (mac_prep w s) = path_join w (target s) [pathOutput s, idx (settings s) ''name'' @ ''.app''] \<and>
     pathBin (mac_prep w s) =
       path_join w (target s) [pathOutput s, idx (settings s) ''name'' @ ''.app'', ''Contents'', ''MacOS''] \<and>
     pathResourcesRelativeToUserBuild (mac_prep w s) =
       path_join w (idx (settings s) ''output'') [idx (settings s) ''name'' @ ''.app'', ''Contents'', ''Resources'']"
  by (simp add: mac_prep_def Let_def)


lemma linux_layout_fields:
  "target (linux_layout w s) = target s" "pathOutput (linux_layout w s) = pathOutput s"
  "executable (linux_layout w s) = executable s" "settings (linux_layout w s) = settings s"
  "packageName (linux_layout w s) =
     idx (settings s) ''executable'' @ ''_'' @ idx (settings s) ''version'' @ ''-''
       @ idx (settings s) ''revision'' @ ''_'' @ idx (settings s) ''arch''"
  "pathPackage (linux_layout w s) = path_join w (target s) [pathOutput s, packageName (linux_layout w s)]"
  "pathBin (linux_layout w s) =
     path_join w (target s) [pathOutput s, packageName (linux_layout w s), ''opt'', idx (settings s) ''name'']"
  "pathResourcesRelativeToUserBuild (linux_layout w s) =
     path_join w (pathOutput s) [packageName (linux_layout w s), ''opt'', idx (settings s) ''name'']"
  by (simp_all add: linux_layout_def Let_def)

lemma layout_values_linux_parts [simp]:
  "layout_values (linux_directories w s) = layout_values s"
  "layout_values (linux_manifests w s) = layout_values s"
  "layout_values (linux_icon w s) = layout_values s"
  by (simp_all add: linux_directories_def linux_manifests_def linux_icon_def Let_def)

lemma settings_linux_parts:
  "settings (linux_directories w s) = settings s"
  "k \<in> set required \<Longrightarrow> settings (linux_manifests w s) k = settings s k"
  "k \<in> set required \<Longrightarrow> settings (linux_icon w s) k = settings s k"
  using required_not_read [of k]
  by (simp_all add: linux_directories_def linux_manifests_def linux_icon_def Let_def settings_reads)

lemma layout_values_eq:
  "layout_values s = layout_values s' \<longleftrightarrow>
     target s = target s' \<and> pathOutput s = pathOutput s' \<and> executable s = executable s' \<and>
     packageName s = packageName s' \<and> pathPackage s = pathPackage s' \<and> pathBin s = pathBin s' \<and>
     pathResources s = pathResources s' \<and>
     pathResourcesRelativeToUserBuild s = pathResourcesRelativeToUserBuild s'"
  by (simp add: layout_values_def)

lemma linux_prep_layout:
  assumes "platform w = Linux"
  shows "target (linux_prep w s) = target s" "pathOutput (linux_prep w s) = pathOutput s"
    "executable (linux_prep w s) = executable s"
    "packageName (linux_prep w s) =
       idx (settings s) ''executable'' @ ''_'' @ idx (settings s) ''version'' @ ''-''
         @ idx (settings s) ''revision'' @ ''_'' @ idx (settings s) ''arch''"
    "pathPackage (linux_prep w s) = path_join w (target s) [pathOutput s, packageName (linux_prep w s)]"
    "pathBin (linux_prep w s) =
       path_join w (target s) [pathOutput s, packageName (linux_prep w s), ''opt'', idx (settings s) ''name'']"
    "pathResourcesRelativeToUserBuild (linux_prep w s) =
       path_join w (pathOutput s) [packageName (linux_prep w s), ''opt'', idx (settings s) ''name'']"
proof -
  let ?s1 = "reads [''revision''] (log ''preparing build for linux'' s)"
  have "layout_values (linux_prep w s) = layout_values (linux_layout w ?s1)"
    using assms by (simp add: linux_prep_def)
  then have e: "target (linux_prep w s) = target (linux_layout w ?s1)"
    "pathOutput (linux_prep w s) = pathOutput (linux_layout w ?s1)"
    "executable (linux_prep w s) = executable (linux_layout w ?s1)"
    "packageName (linux_prep w s) = packageName (linux_layout w ?s1)"
    "pathPackage (linux_prep w s) = pathPackage (linux_layout w ?s1)"
    "pathBin (linux_prep w s) = pathBin (linux_layout w ?s1)"
    "pathResourcesRelativeToUserBuild (linux_prep w s) = pathResourcesRelativeToUserBuild (linux_layout w ?s1)"
    by (simp_all add: layout_values_eq)
  show "target (linux_prep w s) = target s" "pathOutput (linux_prep w s) = pathOutput s"
    "executable (linux_prep w s) = executable s"
    "packageName (linux_prep w s) =
       idx (settings s) ''executable'' @ ''_'' @ idx (settings s) ''version'' @ ''-''
         @ idx (settings s) ''revision'' @ ''_'' @ idx (settings s) ''arch''"
    "pathPackage (linux_prep w s) = path_join w (target s) [pathOutput s, packageName (linux_prep w s)]"
    "pathBin (linux_prep w s) =
       path_join w (target s) [pathOutput s, packageName (linux_prep w s), ''opt'', idx (settings s) ''name'']"
    "pathResourcesRelativeToUserBuild (linux_prep w s) =
       path_join w (pathOutput s) [packageName (linux_prep w s), ''opt'', idx (settings s) ''name'']"
    unfolding e by (simp_all add: linux_layout_fields)
qed

lemma linux_prep_settings:
  "k \<in> set required \<Longrightarrow> settings (linux_prep w s) k = settings s k"
  using required_not_read [of k]
  by (simp add: linux_prep_def settings_linux_parts linux_layout_fields settings_reads)

lemma win_prep_layout:
  "platform w = Win \<Longrightarrow>
     target (win_prep w s) = target s \<and> pathOutput (win_prep w s) = pathOutput s \<and>
     executable (win_prep w s) = executable s \<and>
     packageName (win_prep w s) = idx (settings s) ''executable'' @ ''-'' @ idx (settings s) ''version'' \<and>
     pathPackage (win_prep w s) = path_join w (cwd s) [target s, pathOutput s, packageName (win_prep w s)] \<and>
     pathBin (win_prep w s) = pathPackage (win_prep w s) \<and>
     pathResourcesRelativeToUserBuild (win_prep w s) = pathPackage (win_prep w s)"
  by (simp add: win_prep_def Let_def)

lemma win_prep_settings:
  "k \<in> set required \<Longrightarrow> settings (win_prep w s) k = settings s k"
  using required_not_read [of k]
  by (simp add: win_prep_def Let_def settings_reads)

lemma prep_other_platform [simp]:
  "platform w \<noteq> Mac \<Longrightarrow> mac_prep w s = s"
  "platform w \<noteq> Linux \<Longrightarrow> linux_prep w s = s"
  "platform w \<noteq> Win \<Longrightarrow> win_prep w s = s"
  by (simp_all add: mac_prep_def linux_prep_def win_prep_def)

lemma present_idx: "m k \<noteq> None \<Longrightarrow> m k = Some (idx m k)"
  by (auto simp add: idx_def)

lemma passes_validation_required:
  "passes_validation m \<Longrightarrow> k \<in> set required \<Longrightarrow> m k \<noteq> None"
  by (simp add: passes_validation_def list_all_iff del: not_None_eq)

lemma debug_mode_present:
  "settings s k \<noteq> None \<Longrightarrow> settings (debug_mode s) k \<noteq> None"
  by (simp add: debug_mode_def append_value_def)

text \<open>The prepared state of a run that passes the validation.\<close>

lemma prepared_common:
  assumes "no_help argv" and "passes_validation (loaded_settings w argv)"
  shows "target (prepared w argv) = argv ! 1"
    and "pathOutput (prepared w argv) = idx (loaded_settings w argv) ''output''"
    and "executable (prepared w argv) =
           idx (loaded_settings w argv) ''executable'' @ dev_suffix argv
             @ (if platform w = Win then ''.exe'' else [])"
    and "k \<in> set required \<Longrightarrow> settings (prepared w argv) k =
           Some (if k \<in> {''name'', ''title'', ''executable''}
                 then idx (loaded_settings w argv) k @ dev_suffix argv
                 else idx (loaded_settings w argv) k)"
proof -
  let ?D = "debug_mode (load_settings w (argv ! 1) (parse_flags argv (default_cxx w (initial_state w))))"
  let ?E = "set_executable w (clean_output w ?D)"
  have P: "prepared w argv = log ''package prepared'' (win_prep w (linux_prep w (mac_prep w ?E)))"
    by (rule prepared_eq [OF assms])
  note D = debugged_state [OF assms(1), of w]
  have E: "target ?E = argv ! 1" "pathOutput ?E = idx (loaded_settings w argv) ''output''"
    "executable ?E = idx (loaded_settings w argv) ''executable'' @ dev_suffix argv
             @ (if platform w = Win then ''.exe'' else [])"
    "settings ?E = settings ?D"
    by (simp_all add: D del: One_nat_def)
  have L: "layout_values (win_prep w (linux_prep w (mac_prep w ?E))) = layout_values x \<Longrightarrow>
      target (prepared w argv) = target x \<and> pathOutput (prepared w argv) = pathOutput x \<and>
      executable (prepared w argv) = executable x" for x
    by (simp add: P layout_values_eq)
  have T: "target (win_prep w (linux_prep w (mac_prep w ?E))) = target ?E \<and>
           pathOutput (win_prep w (linux_prep w (mac_prep w ?E))) = pathOutput ?E \<and>
           executable (win_prep w (linux_prep w (mac_prep w ?E))) = executable ?E"
    by (cases "platform w") (simp_all add: mac_prep_layout linux_prep_layout win_prep_layout)
  show "target (prepared w argv) = argv ! 1"
    and "pathOutput (prepared w argv) = idx (loaded_settings w argv) ''output''"
    and "executable (prepared w argv) =
           idx (loaded_settings w argv) ''executable'' @ dev_suffix argv
             @ (if platform w = Win then ''.exe'' else [])"
    using T by (simp_all add: P D del: One_nat_def)
  assume k: "k \<in> set required"
  have "settings (load_settings w (argv ! 1) (parse_flags argv (default_cxx w (initial_state w)))) k \<noteq> None"
    using passes_validation_required [OF assms(2) k] by (simp add: loaded_settings_def)
  then have pr: "settings ?D k \<noteq> None"
    by (rule debug_mode_present)
  have "settings (prepared w argv) k = settings ?E k"
    using k by (cases "platform w")
      (simp_all add: P mac_prep_layout linux_prep_settings win_prep_settings del: One_nat_def)
  also have "\<dots> = settings ?D k" by simp
  also have "\<dots> = Some (idx (settings ?D) k)" using pr by (rule present_idx [of "settings ?D" k])
  finally show "settings (prepared w argv) k =
           Some (if k \<in> {''name'', ''title'', ''executable''}
                 then idx (loaded_settings w argv) k @ dev_suffix argv
                 else idx (loaded_settings w argv) k)"
    by (simp add: D del: One_nat_def)
qed


lemma prepared_layout:
  assumes "no_help argv" and "passes_validation (loaded_settings w argv)"
  shows "packageName (prepared w argv) =
           (case platform w of
              Mac \<Rightarrow> idx (loaded_settings w argv) ''name'' @ dev_suffix argv @ ''.app''
            | Linux \<Rightarrow> idx (loaded_settings w argv) ''executable'' @ dev_suffix argv @ ''_''
                         @ idx (loaded_settings w argv) ''version'' @ ''-''
                         @ idx (loaded_settings w argv) ''revision'' @ ''_''
                         @ idx (loaded_settings w argv) ''arch''
            | Win \<Rightarrow> idx (loaded_settings w argv) ''executable'' @ dev_suffix argv @ ''-''
                         @ idx (loaded_settings w argv) ''version'')"
    and "pathPackage (prepared w argv) =
           (case platform w of
              Win \<Rightarrow> path_join w (initial_cwd w)
                       [argv ! 1, idx (loaded_settings w argv) ''output'', packageName (prepared w argv)]
            | _ \<Rightarrow> path_join w (argv ! 1)
                       [idx (loaded_settings w argv) ''output'', packageName (prepared w argv)])"
    and "pathBin (prepared w argv) =
           (case platform w of
              Mac \<Rightarrow> path_join w (pathPackage (prepared w argv)) [''Contents'', ''MacOS'']
            | Linux \<Rightarrow> path_join w (pathPackage (prepared w argv))
                         [''opt'', idx (loaded_settings w argv) ''name'' @ dev_suffix argv]
            | Win \<Rightarrow> pathPackage (prepared w argv))"
    and "pathResourcesRelativeToUserBuild (prepared w argv) =
           (case platform w of
              Mac \<Rightarrow> path_join w (idx (loaded_settings w argv) ''output'')
                       [packageName (prepared w argv), ''Contents'', ''Resources'']
            | Linux \<Rightarrow> path_join w (idx (loaded_settings w argv) ''output'')
                       [packageName (prepared w argv), ''opt'',
                        idx (loaded_settings w argv) ''name'' @ dev_suffix argv]
            | Win \<Rightarrow> pathPackage (prepared w argv))"
proof -
  let ?D = "debug_mode (load_settings w (argv ! 1) (parse_flags argv (default_cxx w (initial_state w))))"
  let ?E = "set_executable w (clean_output w ?D)"
  have P: "prepared w argv = log ''package prepared'' (win_prep w (linux_prep w (mac_prep w ?E)))"
    by (rule prepared_eq [OF assms])
  note D = debugged_state [OF assms(1), of w]
  have C: "platform w = Mac \<Longrightarrow> win_prep w (linux_prep w (mac_prep w ?E)) = mac_prep w ?E"
    "platform w = Linux \<Longrightarrow> win_prep w (linux_prep w (mac_prep w ?E)) = linux_prep w ?E"
    "platform w = Win \<Longrightarrow> win_prep w (linux_prep w (mac_prep w ?E)) = win_prep w ?E"
    by simp_all
  show "packageName (prepared w argv) =
           (case platform w of
              Mac \<Rightarrow> idx (loaded_settings w argv) ''name'' @ dev_suffix argv @ ''.app''
            | Linux \<Rightarrow> idx (loaded_settings w argv) ''executable'' @ dev_suffix argv @ ''_''
                         @ idx (loaded_settings w argv) ''version'' @ ''-''
                         @ idx (loaded_settings w argv) ''revision'' @ ''_''
                         @ idx (loaded_settings w argv) ''arch''
            | Win \<Rightarrow> idx (loaded_settings w argv) ''executable'' @ dev_suffix argv @ ''-''
                         @ idx (loaded_settings w argv) ''version'')"
    by (cases "platform w")
      (simp_all add: P C mac_prep_layout linux_prep_layout win_prep_layout D del: One_nat_def)
  show "pathPackage (prepared w argv) =
           (case platform w of
              Win \<Rightarrow> path_join w (initial_cwd w)
                       [argv ! 1, idx (loaded_settings w argv) ''output'', packageName (prepared w argv)]
            | _ \<Rightarrow> path_join w (argv ! 1)
                       [idx (loaded_settings w argv) ''output'', packageName (prepared w argv)])"
    by (cases "platform w")
      (simp_all add: P C mac_prep_layout linux_prep_layout win_prep_layout D del: One_nat_def)
  show "pathBin (prepared w argv) =
           (case platform w of
              Mac \<Rightarrow> path_join w (pathPackage (prepared w argv)) [''Contents'', ''MacOS'']
            | Linux \<Rightarrow> path_join w (pathPackage (prepared w argv))
                         [''opt'', idx (loaded_settings w argv) ''name'' @ dev_suffix argv]
            | Win \<Rightarrow> pathPackage (prepared w argv))"
    by (cases "platform w")
      (simp_all add: P C mac_prep_layout linux_prep_layout win_prep_layout D path_join_append
         del: One_nat_def)
  show "pathResourcesRelativeToUserBuild (prepared w argv) =
           (case platform w of
              Mac \<Rightarrow> path_join w (idx (loaded_settings w argv) ''output'')
                       [packageName (prepared w argv), ''Contents'', ''Resources'']
            | Linux \<Rightarrow> path_join w (idx (loaded_settings w argv) ''output'')
                       [packageName (prepared w argv), ''opt'',
                        idx (loaded_settings w argv) ''name'' @ dev_suffix argv]
            | Win \<Rightarrow> pathPackage (prepared w argv))"
    by (cases "platform w")
      (simp_all add: P C mac_prep_layout linux_prep_layout win_prep_layout D del: One_nat_def)
qed

lemma main_prepared:
  assumes "2 \<le> length argv"
  shows "layout_values (main w argv) = layout_values (prepared w argv)"
    and "k \<in> set required \<Longrightarrow> settings (main w argv) k = settings (prepared w argv) k"
proof -
  have "''name'' \<in> set required" by (simp add: required_def)
  from frame_main [OF assms this, of w]
  show "layout_values (main w argv) = layout_values (prepared w argv)"
    by (simp add: frame_def)
  assume "k \<in> set required"
  from frame_main [OF assms this, of w]
  show "settings (main w argv) k = settings (prepared w argv) k"
    by (simp add: frame_def)
qed

section \<open>Debug mode and the layout of the package\<close>

text \<open>
  Claim C5. In a run with debug mode on (no argument contains \<^verbatim>\<open>-xd\<close>) that passes the
  validation, the settings values of \<^verbatim>\<open>name\<close>, \<^verbatim>\<open>title\<close> and \<^verbatim>\<open>executable\<close> in the
  final state are the loaded values with \<^verbatim>\<open>-dev\<close> appended once, whatever else happens
  in the run; and the executable name, the package name and the binary directory of
  every platform are derived from the values that carry the suffix.
\<close>

theorem C5_debug_suffix_once:
  assumes "2 \<le> length argv" and "no_help argv" and "debug_enabled argv"
    and "passes_validation (loaded_settings w argv)"
  shows "idx (settings (main w argv)) ''name'' = idx (loaded_settings w argv) ''name'' @ ''-dev'' \<and>
     idx (settings (main w argv)) ''title'' = idx (loaded_settings w argv) ''title'' @ ''-dev'' \<and>
     idx (settings (main w argv)) ''executable'' = idx (loaded_settings w argv) ''executable'' @ ''-dev'' \<and>
     executable (main w argv) =
       idx (loaded_settings w argv) ''executable'' @ ''-dev'' @ (if platform w = Win then ''.exe'' else []) \<and>
     packageName (main w argv) =
       (case platform w of
          Mac \<Rightarrow> idx (loaded_settings w argv) ''name'' @ ''-dev'' @ ''.app''
        | Linux \<Rightarrow> idx (loaded_settings w argv) ''executable'' @ ''-dev'' @ ''_''
                     @ idx (loaded_settings w argv) ''version'' @ ''-''
                     @ idx (loaded_settings w argv) ''revision'' @ ''_''
                     @ idx (loaded_settings w argv) ''arch''
        | Win \<Rightarrow> idx (loaded_settings w argv) ''executable'' @ ''-dev'' @ ''-''
                     @ idx (loaded_settings w argv) ''version'') \<and>
     pathBin (main w argv) =
       (case platform w of
          Mac \<Rightarrow> path_join w (pathPackage (main w argv)) [''Contents'', ''MacOS'']
        | Linux \<Rightarrow> path_join w (pathPackage (main w argv))
                     [''opt'', idx (loaded_settings w argv) ''name'' @ ''-dev'']
        | Win \<Rightarrow> pathPackage (main w argv))"
proof -
  have d: "dev_suffix argv = ''-dev''"
    using assms(3) by (simp add: dev_suffix_def)
  note l = main_prepared(1) [OF assms(1), of w, unfolded layout_values_eq]
  have k: "settings (main w argv) k = Some (idx (loaded_settings w argv) k @ ''-dev'')"
    if "k \<in> {''name'', ''title'', ''executable''}" for k
  proof -
    from that have r: "k \<in> set required" by (auto simp add: required_def)
    show ?thesis
      using that main_prepared(2) [OF assms(1) r, of w] prepared_common(4) [OF assms(2,4) r]
      by (simp add: d)
  qed
  have i: "idx (settings (main w argv)) k = idx (loaded_settings w argv) k @ ''-dev''"
    if "k \<in> {''name'', ''title'', ''executable''}" for k
    using k [OF that] by (simp add: idx_def)
  show ?thesis
    using l prepared_common(3) [OF assms(2,4)] prepared_layout(1,3) [OF assms(2,4)]
    by (cases "platform w") (simp_all add: i d)
qed


lemma demo_passes: "passes_validation demo_settings"
  by code_simp

theorem C5_debug_suffix_once_witness:
  "idx (settings (main (demo_world Linux demo_settings ok_exec) [''opkit'', ''proj''])) ''name'' = ''foo-dev'' \<and>
   idx (settings (main (demo_world Linux demo_settings ok_exec) [''opkit'', ''proj''])) ''title'' = ''Foo-dev'' \<and>
   idx (settings (main (demo_world Linux demo_settings ok_exec) [''opkit'', ''proj''])) ''executable'' = ''foo-dev'' \<and>
   packageName (main (demo_world Linux demo_settings ok_exec) [''opkit'', ''proj'']) = ''foo-dev_1.0-1_amd64''"
proof -
  let ?W = "demo_world Linux demo_settings ok_exec"
  let ?argv = "[''opkit'', ''proj'']"
  have m: "loaded_settings ?W ?argv = demo_settings"
    by (simp add: loaded_settings_def demo_world_def)
  have h1: "2 \<le> length ?argv" by simp
  have h2: "no_help ?argv" by code_simp
  have h3: "debug_enabled ?argv" by code_simp
  have h4: "passes_validation (loaded_settings ?W ?argv)"
    unfolding m by (rule demo_passes)
  have v: "idx demo_settings ''name'' = ''foo''" "idx demo_settings ''title'' = ''Foo''"
    "idx demo_settings ''executable'' = ''foo''" "idx demo_settings ''version'' = ''1.0''"
    "idx demo_settings ''revision'' = ''1''" "idx demo_settings ''arch'' = ''amd64''"
    by code_simp+
  have p: "platform ?W = Linux" by (simp add: demo_world_def)
  note r = C5_debug_suffix_once [OF h1 h2 h3 h4, unfolded m v p]
  from r [THEN conjunct1] r [THEN conjunct2, THEN conjunct1]
    r [THEN conjunct2, THEN conjunct2, THEN conjunct1]
    r [THEN conjunct2, THEN conjunct2, THEN conjunct2, THEN conjunct2, THEN conjunct1]
  show ?thesis by simp
qed

subsection \<open>Paths under the package root\<close>

lemma has_filename_append: "b \<noteq> [] \<Longrightarrow> has_filename (a @ b) = has_filename b"
  by (cases b rule: rev_cases) (simp_all add: has_filename_def)

lemma is_absolute_append: "b \<noteq> [] \<Longrightarrow> is_absolute (b @ c) = is_absolute b"
  by (cases b) (simp_all add: is_absolute_def)

lemma has_filename_nonempty: "has_filename b \<Longrightarrow> b \<noteq> []"
  by (auto simp add: has_filename_def)

lemma posix_append_assoc:
  assumes "\<not> is_absolute b" and "\<not> is_absolute c" and "has_filename b"
  shows "posix_append (posix_append a b) c = posix_append a (b @ ''/'' @ c)"
proof -
  have b: "b \<noteq> []" using assms(3) by (rule has_filename_nonempty)
  have 1: "\<not> is_absolute (b @ ''/'' @ c)"
    using assms(1) b by (simp add: is_absolute_append)
  have 2: "has_filename (x @ b)" for x
    using assms(3) b by (simp add: has_filename_append)
  show ?thesis
    using assms(1,2) 1 2 [of a] 2 [of "a @ ''/''"] by (simp add: posix_append_def)
qed

lemma posix_append_absolute: "is_absolute b \<Longrightarrow> posix_append a b = b"
  by (simp add: posix_append_def)

text \<open>Splitting and walking a path that was composed of two.\<close>

lemma split_path_nonempty [simp]: "split_path f x \<noteq> []"
  by (induction x) (simp_all add: Let_def)

lemma split_path_sep: "f s \<Longrightarrow> split_path f (x @ s # y) = split_path f x @ split_path f y"
proof (induction x)
  case Nil
  then show ?case by simp
next
  case (Cons c x)
  then show ?case by (cases "split_path f x") (simp_all add: Let_def)
qed

lemma walk_empty [simp]: "walk r st [] = st"
  by (simp add: walk_def)

lemma walk_join:
  assumes "j = [] \<or> (\<exists>s. j = [s] \<and> f s)" and "j = [] \<longrightarrow> x = [] \<or> f (last x)"
  shows "foldl (walk r) st (split_path f (x @ j @ b)) =
         foldl (walk r) (foldl (walk r) st (split_path f x)) (split_path f b)"
proof (cases "j = []")
  case False
  with assms(1) obtain s where "j = [s]" "f s" by auto
  then show ?thesis by (simp add: split_path_sep)
next
  case True
  show ?thesis
  proof (cases x rule: rev_cases)
    case Nil
    then show ?thesis using True by simp
  next
    case (snoc y s)
    with assms(2) True have s: "f s" by simp
    have "split_path f (x @ j @ b) = split_path f y @ split_path f b"
      using snoc True s by (simp add: split_path_sep)
    moreover have "split_path f x = split_path f y @ [[]]"
      using snoc s split_path_sep [of f s y "[]"] by simp
    ultimately show ?thesis by simp
  qed
qed

lemma walk_keeps: "''..'' \<in> set st \<Longrightarrow> ''..'' \<in> set (walk False st c)"
  by (cases st) (auto simp add: walk_def)

lemma walk_stays: "''..'' \<in> set st \<Longrightarrow> ''..'' \<in> set (foldl (walk False) st cs)"
  by (induction cs arbitrary: st) (simp_all add: walk_keeps)

lemma walk_above:
  "''..'' \<notin> set (foldl (walk False) upper cs) \<Longrightarrow>
     foldl (walk r) (upper @ st0) cs = foldl (walk False) upper cs @ st0"
proof (induction cs arbitrary: upper)
  case Nil
  then show ?case by simp
next
  case (Cons c cs)
  have n: "''..'' \<notin> set (walk False upper c)"
    using Cons.prems walk_stays [of "walk False upper c" cs] by auto
  have "walk r (upper @ st0) c = walk False upper c @ st0"
    using n by (cases upper) (auto simp add: walk_def)
  with Cons show ?case by simp
qed

text \<open>Descent is reflexive and transitive, and a path that stays inside descends.\<close>

lemma descends_refl [simp]: "descends os r r"
  by (simp add: descends_def)

lemma descends_trans:
  assumes "descends os a b" and "descends os b c"
  shows "descends os a c"
proof -
  from assms obtain x y where b: "resolved os b = resolved os a @ x" and c: "resolved os c = resolved os b @ y"
    by (auto simp add: descends_def prefix_def)
  have x: "''..'' \<notin> set x"
    using assms(1) unfolding descends_def b by simp
  have y: "''..'' \<notin> set y"
    using assms(2) unfolding descends_def c by simp
  have 1: "take (root_name_length os c) c = take (root_name_length os a) a"
    using assms unfolding descends_def by (elim conjE) (rule trans)
  have 2: "is_rooted os c = is_rooted os a"
    using assms unfolding descends_def by (elim conjE) (rule trans)
  have 3: "resolved os c = resolved os a @ x @ y"
    unfolding c b by simp
  show ?thesis
    unfolding descends_def 3 using 1 2 x y by simp
qed

lemma descends_join:
  assumes r: "r = a @ j @ b"
    and n: "root_name_length os r = root_name_length os a" "root_name_length os a \<le> length a"
    and t: "is_rooted os r = is_rooted os a"
    and j: "j = [] \<or> (\<exists>s. j = [s] \<and> is_separator os s)"
      "j = [] \<longrightarrow> drop (root_name_length os a) a = [] \<or> is_separator os (last a)"
    and b: "''..'' \<notin> set (resolve False (split_path (is_separator os) b))"
  shows "descends os a r"
proof -
  let ?n = "root_name_length os a"
  let ?f = "is_separator os"
  let ?R = "foldl (walk (is_rooted os a)) [] (split_path ?f (drop ?n a))"
  let ?B = "foldl (walk False) [] (split_path ?f b)"
  have d: "drop ?n r = drop ?n a @ j @ b"
    using r n(2) by simp
  have j2: "j = [] \<longrightarrow> drop ?n a = [] \<or> ?f (last (drop ?n a))"
    using j(2) by (cases "root_name_length os a < length a") simp_all
  have "foldl (walk (is_rooted os a)) [] (split_path ?f (drop ?n r)) =
      foldl (walk (is_rooted os a)) ?R (split_path ?f b)"
    unfolding d by (rule walk_join [OF j(1) j2])
  also have "\<dots> = ?B @ ?R"
    using walk_above [of "[]" "split_path ?f b" "is_rooted os a" ?R] b
    by (simp add: resolve_def)
  finally have "resolved os r = resolved os a @ rev ?B"
    by (simp add: resolved_def resolve_def n(1) t)
  then show ?thesis
    using b n t r by (simp add: descends_def resolve_def)
qed

lemma posix_join_walk:
  assumes "\<forall>b \<in> set ps. \<not> is_absolute b"
    and "''..'' \<notin> set (foldl (walk False) [] (concat (map (split_path f) ps)))"
    and f: "\<And>c. f c = (c = CHR ''/'')"
  shows "is_absolute (foldl posix_append a ps) = is_absolute a \<and>
         foldl (walk r) [] (split_path f (foldl posix_append a ps)) =
           foldl (walk False) [] (concat (map (split_path f) ps)) @ foldl (walk r) [] (split_path f a)"
  using assms(1,2)
proof (induction ps rule: rev_induct)
  case Nil
  show ?case by simp
next
  case (snoc b ps)
  let ?A = "foldl posix_append a ps"
  let ?C = "foldl (walk False) [] (concat (map (split_path f) ps))"
  let ?R = "foldl (walk r) [] (split_path f a)"
  have c: "''..'' \<notin> set (foldl (walk False) ?C (split_path f b))"
    using snoc.prems(2) by simp
  then have "''..'' \<notin> set ?C"
    using walk_stays [of ?C "split_path f b"] by blast
  with snoc have ih: "is_absolute ?A = is_absolute a"
    "foldl (walk r) [] (split_path f ?A) = ?C @ ?R"
    by simp_all
  have nb: "\<not> is_absolute b"
    using snoc.prems(1) by simp
  define j where "j = (if has_filename ?A then ''/'' else [])"
  have e: "posix_append ?A b = ?A @ j @ b"
    using nb by (simp add: posix_append_def j_def)
  have 1: "is_absolute (?A @ j @ b) = is_absolute ?A"
    using nb by (cases ?A) (simp_all add: is_absolute_def j_def has_filename_def)
  have j1: "j = [] \<or> (\<exists>s. j = [s] \<and> f s)"
    by (simp add: j_def f)
  have j2: "j = [] \<longrightarrow> ?A = [] \<or> f (last ?A)"
    by (cases ?A rule: rev_cases) (simp_all add: j_def has_filename_def f)
  have "foldl (walk r) [] (split_path f (?A @ j @ b)) =
      foldl (walk r) (foldl (walk r) [] (split_path f ?A)) (split_path f b)"
    by (rule walk_join [OF j1 j2])
  also have "\<dots> = foldl (walk r) (?C @ ?R) (split_path f b)"
    unfolding ih ..
  also have "\<dots> = foldl (walk False) ?C (split_path f b) @ ?R"
    by (rule walk_above [OF c])
  finally show ?case
    using 1 ih(1) by (simp add: e)
qed

lemma posix_join_descends:
  assumes "os \<noteq> Win" and "stays_inside os ps"
  shows "descends os a (foldl posix_append a ps)"
proof -
  let ?f = "is_separator os"
  let ?B = "foldl (walk False) [] (concat (map (split_path ?f) ps))"
  have s: "?f c = (c = CHR ''/'')" for c
    using assms(1) by (simp add: is_separator_def)
  have n: "root_name_length os p = 0" for p
    using assms(1) by (simp add: root_name_length_def)
  have t: "is_rooted os p = is_absolute p" for p
    using assms(1) by (simp add: is_rooted_def)
  have b: "\<forall>b \<in> set ps. \<not> is_absolute b"
  proof
    fix b
    assume "b \<in> set ps"
    with assms(2) have "is_relative os b"
      by (simp add: stays_inside_def list_all_iff)
    then show "\<not> is_absolute b"
      by (cases b) (simp_all add: is_relative_def is_absolute_def s)
  qed
  have c: "''..'' \<notin> set ?B"
    using assms(2) by (simp add: stays_inside_def resolve_def)
  note w = posix_join_walk [OF b c s, of a "is_absolute a"]
  have "resolved os (foldl posix_append a ps) = resolved os a @ rev ?B"
    using w by (simp add: resolved_def resolve_def n t)
  then show ?thesis
    using w c by (simp add: descends_def n t)
qed

text \<open>
  The composition of Windows: after a root that contains a hyphen, as every package
  root does, a relative path leaves the root name and the rootedness of the root as
  they are.
\<close>

lemma win_root_name_length_le: "win_root_name_length p \<le> length p"
proof -
  have "3 + length (takeWhile (\<lambda>c. \<not> win_slash c) (drop 3 p)) \<le> length p" if "3 \<le> length p"
    using length_takeWhile_le [of "\<lambda>c. \<not> win_slash c" "drop 3 p"] that by simp
  then show ?thesis
    by (simp add: win_root_name_length_def)
qed

lemma has_drive_root: "has_drive p \<Longrightarrow> win_root_name_length p = 2"
  by (simp add: win_root_name_length_def has_drive_def)

lemma msvc_append_relative:
  assumes "win_relative b"
  shows "msvc_append a b = a @ win_joiner a @ b"
proof -
  have 0: "win_root_name_length b = 0" using assms by (simp add: win_relative_def)
  have 1: "\<not> win_is_absolute b"
    using 0 has_drive_root [of b] by (auto simp add: win_is_absolute_def)
  have 2: "\<not> win_has_root_directory b"
    using assms by (cases b) (simp_all add: win_has_root_directory_def win_relative_def)
  show ?thesis
    by (simp add: msvc_append_def 0 1 2 win_joiner_def)
qed

lemma hyphen_plain [simp]: "\<not> win_slash CHR ''-''" "\<not> is_letter CHR ''-''"
  by (simp_all add: win_slash_def is_letter_def)

lemma backslash_separates [simp]: "win_slash CHR 0x5C"
  by (simp add: win_slash_def)

lemma short_list:
  assumes "length a < 5"
  shows "a = [] \<or> (\<exists>c0. a = [c0]) \<or> (\<exists>c0 c1. a = [c0, c1]) \<or> (\<exists>c0 c1 c2. a = [c0, c1, c2]) \<or>
     (\<exists>c0 c1 c2 c3. a = [c0, c1, c2, c3])"
proof (cases a)
  case (Cons c0 r0)
  show ?thesis
  proof (cases r0)
    case (Cons c1 r1)
    show ?thesis
    proof (cases r1)
      case (Cons c2 r2)
      show ?thesis
      proof (cases r2)
        case (Cons c3 r3)
        with assms \<open>a = c0 # r0\<close> \<open>r0 = c1 # r1\<close> \<open>r1 = c2 # r2\<close> show ?thesis by simp
      qed (simp add: \<open>a = c0 # r0\<close> \<open>r0 = c1 # r1\<close> \<open>r1 = c2 # r2\<close>)
    qed (simp add: \<open>a = c0 # r0\<close> \<open>r0 = c1 # r1\<close>)
  qed (simp add: \<open>a = c0 # r0\<close>)
qed simp

lemma root_small:
  assumes "CHR ''-'' \<in> set a" and "win_relative b" and "length a < 5"
  shows "win_root_name_length (a @ win_joiner a @ b) = win_root_name_length a"
  using short_list [OF assms(3)] assms(1,2)
  apply (elim disjE exE)
      apply simp
     apply (simp add: win_joiner_def win_root_name_length_def has_drive_def bs_def)
    apply (auto simp add: win_joiner_def win_root_name_length_def has_drive_def bs_def)[1]
   apply (auto simp add: win_joiner_def win_root_name_length_def has_drive_def bs_def
      win_relative_def nth_append split: list.splits)[1]
  apply (auto simp add: win_joiner_def win_root_name_length_def has_drive_def bs_def
      win_relative_def nth_append split: list.splits)[1]
  done

lemma root_large:
  assumes "5 \<le> length a"
  shows "win_root_name_length (a @ win_joiner a @ b) = win_root_name_length a"
proof -
  let ?p = "a @ win_joiner a @ b"
  let ?P = "\<lambda>c. \<not> win_slash c"
  have n: "?p ! 0 = a ! 0" "?p ! 1 = a ! 1" "?p ! 2 = a ! 2" "?p ! 3 = a ! 3" "?p ! 4 = a ! 4"
    using assms by (auto simp add: nth_append)
  have l: "\<not> length ?p < 2" "4 \<le> length ?p" "3 \<le> length ?p" "length ?p \<noteq> 4"
    "\<not> length a < 2" "4 \<le> length a" "3 \<le> length a" "length a \<noteq> 4"
    using assms by simp_all
  have d: "has_drive ?p = has_drive a"
    unfolding has_drive_def n using assms by simp
  have k: "drop 3 ?p = drop 3 a @ win_joiner a @ b"
    using assms by simp
  show ?thesis
  proof (cases "\<exists>c \<in> set (drop 3 a). win_slash c")
    case True
    then have "takeWhile ?P (drop 3 ?p) = takeWhile ?P (drop 3 a)"
      unfolding k by auto
    then show ?thesis
      unfolding win_root_name_length_def d n by (simp only: l)
  next
    case False
    then have t: "takeWhile ?P (drop 3 a) = drop 3 a"
      by (simp add: takeWhile_eq_all_conv)
    have u: "takeWhile ?P (drop 3 ?p) = drop 3 a @ takeWhile ?P (win_joiner a @ b)"
      unfolding k using False by (simp add: takeWhile_append2)
    show ?thesis
    proof (cases "win_root_name_length a = length a")
      case True
      then have "win_joiner a = bs"
        using assms by (simp add: win_joiner_def)
      then have "takeWhile ?P (drop 3 ?p) = takeWhile ?P (drop 3 a)"
        unfolding u t by (simp add: bs_def)
      then show ?thesis
        unfolding win_root_name_length_def d n by (simp only: l)
    next
      case False
      then show ?thesis
        using assms unfolding win_root_name_length_def d n t
        by (simp only: l split: if_splits) simp_all
    qed
  qed
qed

lemma root_joined:
  assumes "CHR ''-'' \<in> set a" and "win_relative b"
  shows "win_root_name_length (a @ win_joiner a @ b) = win_root_name_length a"
  using root_small [OF assms] root_large [of a b] by (cases "length a < 5") simp_all

lemma has_drive_joined:
  assumes "CHR ''-'' \<in> set a"
  shows "has_drive (a @ win_joiner a @ b) = has_drive a"
proof (cases "2 \<le> length a")
  case True
  then have "(a @ win_joiner a @ b) ! 0 = a ! 0" "(a @ win_joiner a @ b) ! 1 = a ! 1"
    by (auto simp add: nth_append)
  then show ?thesis using True by (simp add: has_drive_def)
next
  case False
  with assms have "length a = 1" by (cases a) (auto simp add: not_le)
  then obtain c where a: "a = [c]" by (auto simp add: length_Suc_conv)
  with assms have "win_joiner a = bs"
    by (auto simp add: win_joiner_def win_root_name_length_def)
  then show ?thesis using a by (simp add: has_drive_def bs_def)
qed

lemma drive_only:
  assumes "CHR ''-'' \<in> set a" and "has_drive a"
  shows "3 \<le> length a"
proof (rule ccontr)
  assume "\<not> 3 \<le> length a"
  with assms(2) have "length a = 2" by (simp add: has_drive_def)
  then obtain c d where "a = [c, d]" by (auto simp add: length_Suc_conv numeral_2_eq_2)
  with assms show False by (auto simp add: has_drive_def)
qed

lemma rooted_joined:
  assumes "CHR ''-'' \<in> set a" and "win_relative b"
  shows "is_rooted Win (a @ win_joiner a @ b) = is_rooted Win a"
proof -
  let ?p = "a @ win_joiner a @ b"
  let ?n = "win_root_name_length a"
  note r = root_joined [OF assms]
  note d = has_drive_joined [OF assms(1), of b]
  have le: "?n \<le> length a" by (rule win_root_name_length_le)
  show ?thesis
  proof (cases "has_drive a")
    case True
    then have 3: "3 \<le> length a" by (rule drive_only [OF assms(1)])
    then have "?p ! 2 = a ! 2" by (auto simp add: nth_append)
    with True 3 d show ?thesis
      by (simp add: is_rooted_def win_is_absolute_def win_has_root_directory_def has_drive_root nth_append)
  next
    case False
    show ?thesis
    proof (cases "?n < length a")
      case True
      then have "?p ! ?n = a ! ?n" by (simp add: nth_append)
      with True False d r show ?thesis
        by (simp add: is_rooted_def win_is_absolute_def win_has_root_directory_def)
    next
      case F: False
      with le have e: "?n = length a" by simp
      with assms(1) have "?n \<noteq> 0" by auto
      with False d r show ?thesis
        by (simp add: is_rooted_def win_is_absolute_def win_has_root_directory_def)
    qed
  qed
qed

lemma hyphen_kept:
  assumes "CHR ''-'' \<in> set b"
  shows "CHR ''-'' \<in> set (msvc_append a b)"
proof (cases "CHR ''-'' \<in> set (drop (win_root_name_length b) b)")
  case True
  then show ?thesis using assms unfolding msvc_append_def by auto
next
  case False
  with assms have t: "CHR ''-'' \<in> set (take (win_root_name_length b) b)"
    by (metis Un_iff append_take_drop_id set_append)
  have "win_is_absolute b"
  proof (cases "has_drive b")
    case True
    then obtain c d r where "b = c # d # r"
      by (cases b; cases "tl b") (auto simp add: has_drive_def)
    with t True show ?thesis by (auto simp add: has_drive_root has_drive_def)
  next
    case False
    have "win_root_name_length b \<noteq> 0"
      using t by (cases "win_root_name_length b = 0") simp_all
    with False show ?thesis by (simp add: win_is_absolute_def)
  qed
  then show ?thesis using assms by (simp add: msvc_append_def)
qed

lemma msvc_append_descends:
  assumes "CHR ''-'' \<in> set a" and "stays_inside Win [b]"
  shows "descends Win a (msvc_append a b)"
proof -
  have s: "is_separator Win c = win_slash c" for c
    by (simp add: is_separator_def win_slash_def)
  have p: "win_relative b"
    using assms(2)
    by (cases b) (simp_all add: stays_inside_def is_relative_def win_relative_def root_name_length_def s)
  have r: "msvc_append a b = a @ win_joiner a @ b"
    using p by (rule msvc_append_relative)
  show ?thesis
  proof (rule descends_join [OF r])
    show "root_name_length Win (msvc_append a b) = root_name_length Win a"
      unfolding r by (simp add: root_name_length_def root_joined [OF assms(1) p])
    show "root_name_length Win a \<le> length a"
      by (simp add: root_name_length_def win_root_name_length_le)
    show "is_rooted Win (msvc_append a b) = is_rooted Win a"
      unfolding r by (rule rooted_joined [OF assms(1) p])
    show "win_joiner a = [] \<or> (\<exists>s. win_joiner a = [s] \<and> is_separator Win s)"
      by (simp add: win_joiner_def bs_def s)
    show "win_joiner a = [] \<longrightarrow> drop (root_name_length Win a) a = [] \<or> is_separator Win (last a)"
      using win_root_name_length_le [of a]
      by (auto simp add: win_joiner_def bs_def s root_name_length_def split: if_splits)
    show "''..'' \<notin> set (resolve False (split_path (is_separator Win) b))"
      using assms(2) by (simp add: stays_inside_def)
  qed
qed

lemma package_has_hyphen:
  assumes "no_help argv" and "passes_validation (loaded_settings w argv)"
    and "platform w = Win" and "win_append w = msvc_append"
  shows "CHR ''-'' \<in> set (pathPackage (prepared w argv))"
proof -
  have n: "CHR ''-'' \<in> set (packageName (prepared w argv))"
    using prepared_layout(1) [OF assms(1,2)] assms(3) by simp
  have "pathPackage (prepared w argv) =
      msvc_append (msvc_append (msvc_append (initial_cwd w) (argv ! 1))
        (idx (loaded_settings w argv) ''output'')) (packageName (prepared w argv))"
    using prepared_layout(2) [OF assms(1,2)] assms(3,4)
    by (simp add: path_append_def del: One_nat_def)
  then show ?thesis
    using n by (simp add: hyphen_kept)
qed

text \<open>
  Claim C7, as amended. In a run that passes the validation: on macOS the binary
  directory is \<^verbatim>\<open><package>/Contents/MacOS\<close> and descends from the package root; on Linux
  it is \<^verbatim>\<open><package>/opt/<name>\<close> as the path composition makes it, which is the name
  itself when the name is an absolute path, and which descends from the package root
  when \<^verbatim>\<open>opt\<close> and the name stay inside it (the name is relative and does not climb out
  of the package through \<^verbatim>\<open>..\<close>); on Windows it is the package root itself. The binary
  path, the binary directory composed with the executable (on Windows with \<^verbatim>\<open>.exe\<close>
  added), descends from the package root when the pieces appended to the package root
  stay inside it together with the executable; on Windows this holds for the path
  composition of the Microsoft library. (The name and the executable carry the debug
  suffix when debug mode is on. Descent is judged after the components \<^verbatim>\<open>.\<close> and
  \<^verbatim>\<open>..\<close> are resolved, and the root descends from itself.)
\<close>

theorem C7_binary_under_package:
  assumes "2 \<le> length argv" and "no_help argv" and "passes_validation (loaded_settings w argv)"
  shows "case platform w of
      Mac \<Rightarrow>
        pathBin (main w argv) = posix_append (posix_append (pathPackage (main w argv)) ''Contents'') ''MacOS'' \<and>
        descends Mac (pathPackage (main w argv)) (pathBin (main w argv)) \<and>
        (stays_inside Mac
           [''Contents'', ''MacOS'', idx (loaded_settings w argv) ''executable'' @ dev_suffix argv] \<longrightarrow>
           descends Mac (pathPackage (main w argv)) (binaryPath w (main w argv)))
    | Linux \<Rightarrow>
        pathBin (main w argv) =
          posix_append (posix_append (pathPackage (main w argv)) ''opt'')
            (idx (loaded_settings w argv) ''name'' @ dev_suffix argv) \<and>
        (is_absolute (idx (loaded_settings w argv) ''name'' @ dev_suffix argv) \<longrightarrow>
           pathBin (main w argv) = idx (loaded_settings w argv) ''name'' @ dev_suffix argv) \<and>
        (stays_inside Linux [''opt'', idx (loaded_settings w argv) ''name'' @ dev_suffix argv] \<longrightarrow>
           descends Linux (pathPackage (main w argv)) (pathBin (main w argv))) \<and>
        (stays_inside Linux
           [''opt'', idx (loaded_settings w argv) ''name'' @ dev_suffix argv,
            idx (loaded_settings w argv) ''executable'' @ dev_suffix argv] \<longrightarrow>
           descends Linux (pathPackage (main w argv)) (binaryPath w (main w argv)))
    | Win \<Rightarrow>
        pathBin (main w argv) = pathPackage (main w argv) \<and>
        descends Win (pathPackage (main w argv)) (pathBin (main w argv)) \<and>
        binaryPath w (main w argv) =
          win_append w (pathPackage (main w argv))
            (idx (loaded_settings w argv) ''executable'' @ dev_suffix argv @ ''.exe'') \<and>
        (win_append w = msvc_append \<and>
         stays_inside Win [idx (loaded_settings w argv) ''executable'' @ dev_suffix argv @ ''.exe''] \<longrightarrow>
           descends Win (pathPackage (main w argv)) (binaryPath w (main w argv)))"
proof -
  note l = main_prepared(1) [OF assms(1), of w, unfolded layout_values_eq]
  note x = prepared_common(3) [OF assms(2,3)]
  note b = prepared_layout(3) [OF assms(2,3)]
  show ?thesis
  proof (cases "platform w")
    case Mac
    have bin: "pathBin (main w argv) =
        posix_append (posix_append (pathPackage (main w argv)) ''Contents'') ''MacOS''"
      using l b Mac by (simp add: path_append_def)
    have "stays_inside Mac [''Contents'', ''MacOS'']"
      by code_simp
    from posix_join_descends [OF _ this, of "pathPackage (main w argv)"]
    have u: "descends Mac (pathPackage (main w argv)) (pathBin (main w argv))"
      unfolding bin by simp
    have e: "binaryPath w (main w argv) =
        posix_append (pathBin (main w argv)) (idx (loaded_settings w argv) ''executable'' @ dev_suffix argv)"
      using l x Mac by (simp add: binaryPath_def path_append_def)
    have "descends Mac (pathPackage (main w argv)) (binaryPath w (main w argv))"
      if "stays_inside Mac
           [''Contents'', ''MacOS'', idx (loaded_settings w argv) ''executable'' @ dev_suffix argv]"
      using posix_join_descends [OF _ that, of "pathPackage (main w argv)"]
      unfolding e bin by simp
    with bin u Mac show ?thesis by simp
  next
    case Linux
    have bin: "pathBin (main w argv) =
        posix_append (posix_append (pathPackage (main w argv)) ''opt'')
          (idx (loaded_settings w argv) ''name'' @ dev_suffix argv)"
      using l b Linux by (simp add: path_append_def)
    have e: "binaryPath w (main w argv) =
        posix_append (pathBin (main w argv)) (idx (loaded_settings w argv) ''executable'' @ dev_suffix argv)"
      using l x Linux by (simp add: binaryPath_def path_append_def)
    have a: "pathBin (main w argv) = idx (loaded_settings w argv) ''name'' @ dev_suffix argv"
      if "is_absolute (idx (loaded_settings w argv) ''name'' @ dev_suffix argv)"
      unfolding bin using that by (rule posix_append_absolute)
    have u: "descends Linux (pathPackage (main w argv)) (pathBin (main w argv))"
      if "stays_inside Linux [''opt'', idx (loaded_settings w argv) ''name'' @ dev_suffix argv]"
      using posix_join_descends [OF _ that, of "pathPackage (main w argv)"]
      unfolding bin by simp
    have "descends Linux (pathPackage (main w argv)) (binaryPath w (main w argv))"
      if "stays_inside Linux
           [''opt'', idx (loaded_settings w argv) ''name'' @ dev_suffix argv,
            idx (loaded_settings w argv) ''executable'' @ dev_suffix argv]"
      using posix_join_descends [OF _ that, of "pathPackage (main w argv)"]
      unfolding e bin by simp
    with bin a u Linux show ?thesis by simp
  next
    case Win
    have bin: "pathBin (main w argv) = pathPackage (main w argv)"
      using l b Win by simp
    have e: "binaryPath w (main w argv) =
        win_append w (pathPackage (main w argv))
          (idx (loaded_settings w argv) ''executable'' @ dev_suffix argv @ ''.exe'')"
      using l x b Win by (simp add: binaryPath_def path_append_def)
    have "descends Win (pathPackage (main w argv)) (binaryPath w (main w argv))"
      if "win_append w = msvc_append"
        and "stays_inside Win [idx (loaded_settings w argv) ''executable'' @ dev_suffix argv @ ''.exe'']"
    proof -
      have "CHR ''-'' \<in> set (pathPackage (main w argv))"
        using package_has_hyphen [OF assms(2,3) Win that(1)] l by simp
      then show ?thesis
        unfolding e that(1) using that(2) by (rule msvc_append_descends)
    qed
    with bin e Win show ?thesis by simp
  qed
qed

theorem C7_binary_under_package_witness:
  "descends Linux (pathPackage (main (demo_world Linux demo_settings ok_exec) [''opkit'', ''proj'']))
     (pathBin (main (demo_world Linux demo_settings ok_exec) [''opkit'', ''proj''])) \<and>
   descends Linux (pathPackage (main (demo_world Linux demo_settings ok_exec) [''opkit'', ''proj'']))
     (binaryPath (demo_world Linux demo_settings ok_exec)
        (main (demo_world Linux demo_settings ok_exec) [''opkit'', ''proj''])) \<and>
   descends Mac (pathPackage (main (demo_world Mac demo_settings ok_exec) [''opkit'', ''proj'']))
     (binaryPath (demo_world Mac demo_settings ok_exec)
        (main (demo_world Mac demo_settings ok_exec) [''opkit'', ''proj''])) \<and>
   descends Win (pathPackage (main (windows_world demo_settings) [''opkit'', ''proj'']))
     (binaryPath (windows_world demo_settings) (main (windows_world demo_settings) [''opkit'', ''proj'']))"
proof -
  let ?L = "demo_world Linux demo_settings ok_exec"
  let ?M = "demo_world Mac demo_settings ok_exec"
  let ?W = "windows_world demo_settings"
  let ?argv = "[''opkit'', ''proj'']"
  have m: "loaded_settings ?L ?argv = demo_settings" "loaded_settings ?M ?argv = demo_settings"
    "loaded_settings ?W ?argv = demo_settings"
    by (simp_all add: loaded_settings_def demo_world_def windows_world_def)
  have h1: "2 \<le> length ?argv" by simp
  have h2: "no_help ?argv" by code_simp
  have h4: "passes_validation (loaded_settings ?L ?argv)" "passes_validation (loaded_settings ?M ?argv)"
    "passes_validation (loaded_settings ?W ?argv)"
    unfolding m by (rule demo_passes)+
  have p: "platform ?L = Linux" "platform ?M = Mac" "platform ?W = Win"
    by (simp_all add: demo_world_def windows_world_def)
  have c: "win_append ?W = msvc_append"
    by (simp add: demo_world_def windows_world_def)
  have v: "stays_inside Linux [''opt'', idx demo_settings ''name'' @ dev_suffix ?argv]"
    "stays_inside Linux [''opt'', idx demo_settings ''name'' @ dev_suffix ?argv,
       idx demo_settings ''executable'' @ dev_suffix ?argv]"
    "stays_inside Mac [''Contents'', ''MacOS'', idx demo_settings ''executable'' @ dev_suffix ?argv]"
    "stays_inside Win [idx demo_settings ''executable'' @ dev_suffix ?argv @ ''.exe'']"
    by code_simp+
  note rl = C7_binary_under_package [OF h1 h2 h4(1), unfolded m p platform_os.case,
      THEN conjunct2, THEN conjunct2]
  note rm = C7_binary_under_package [OF h1 h2 h4(2), unfolded m p platform_os.case,
      THEN conjunct2, THEN conjunct2, THEN mp, OF v(3)]
  note rw = C7_binary_under_package [OF h1 h2 h4(3), unfolded m p platform_os.case,
      THEN conjunct2, THEN conjunct2, THEN conjunct2, THEN mp, OF conjI [OF c v(4)]]
  from rl [THEN conjunct1, THEN mp, OF v(1)] rl [THEN conjunct2, THEN mp, OF v(2)] rm rw
  show ?thesis by (intro conjI)
qed

text \<open>
  The claim as stated fails on Linux for a name that is an absolute path: the binary
  directory is that path, outside the package root (also when both are taken from the
  working directory of the run), and so is the binary. It fails for
  a relative name that climbs out of the package: the binary directory
  \<^verbatim>\<open><package>/opt/../../x-dev\<close> is a sibling of the package root. On Windows it fails in the same way for an executable
  that climbs.
\<close>

theorem C7_counterexample:
  "passes_validation abs_name_settings \<and>
   pathPackage (main (demo_world Linux abs_name_settings ok_exec) [''opkit'', ''proj'']) =
     ''proj/dist/foo-dev_1.0-1_amd64'' \<and>
   pathBin (main (demo_world Linux abs_name_settings ok_exec) [''opkit'', ''proj'']) = ''/x-dev'' \<and>
   binaryPath (demo_world Linux abs_name_settings ok_exec)
     (main (demo_world Linux abs_name_settings ok_exec) [''opkit'', ''proj'']) = ''/x-dev/foo-dev'' \<and>
   \<not> descends Linux (pathPackage (main (demo_world Linux abs_name_settings ok_exec) [''opkit'', ''proj'']))
       (pathBin (main (demo_world Linux abs_name_settings ok_exec) [''opkit'', ''proj''])) \<and>
   \<not> descends Linux (pathPackage (main (demo_world Linux abs_name_settings ok_exec) [''opkit'', ''proj'']))
       (binaryPath (demo_world Linux abs_name_settings ok_exec)
          (main (demo_world Linux abs_name_settings ok_exec) [''opkit'', ''proj''])) \<and>
   initial_cwd (demo_world Linux abs_name_settings ok_exec) = ''/home/u'' \<and>
   \<not> descends Linux
       (posix_append ''/home/u''
          (pathPackage (main (demo_world Linux abs_name_settings ok_exec) [''opkit'', ''proj''])))
       (posix_append ''/home/u''
          (pathBin (main (demo_world Linux abs_name_settings ok_exec) [''opkit'', ''proj'']))) \<and>
   passes_validation climbing_name_settings \<and>
   pathPackage (main (demo_world Linux climbing_name_settings ok_exec) [''opkit'', ''proj'']) =
     ''proj/dist/foo-dev_1.0-1_amd64'' \<and>
   pathBin (main (demo_world Linux climbing_name_settings ok_exec) [''opkit'', ''proj'']) =
     ''proj/dist/foo-dev_1.0-1_amd64/opt/../../x-dev'' \<and>
   resolved Linux (pathPackage (main (demo_world Linux climbing_name_settings ok_exec) [''opkit'', ''proj''])) =
     [''proj'', ''dist'', ''foo-dev_1.0-1_amd64''] \<and>
   resolved Linux (pathBin (main (demo_world Linux climbing_name_settings ok_exec) [''opkit'', ''proj''])) =
     [''proj'', ''dist'', ''x-dev''] \<and>
   \<not> descends Linux (pathPackage (main (demo_world Linux climbing_name_settings ok_exec) [''opkit'', ''proj'']))
       (pathBin (main (demo_world Linux climbing_name_settings ok_exec) [''opkit'', ''proj''])) \<and>
   \<not> descends Linux (pathPackage (main (demo_world Linux climbing_name_settings ok_exec) [''opkit'', ''proj'']))
       (binaryPath (demo_world Linux climbing_name_settings ok_exec)
          (main (demo_world Linux climbing_name_settings ok_exec) [''opkit'', ''proj''])) \<and>
   passes_validation climbing_executable_settings \<and>
   resolved Win (pathPackage (main (windows_world climbing_executable_settings) [''opkit'', ''proj''])) =
     [''work'', ''proj'', ''x-dev-1.0''] \<and>
   resolved Win (binaryPath (windows_world climbing_executable_settings)
       (main (windows_world climbing_executable_settings) [''opkit'', ''proj''])) =
     [''work'', ''proj'', ''x-dev.exe''] \<and>
   \<not> descends Win (pathPackage (main (windows_world climbing_executable_settings) [''opkit'', ''proj'']))
       (binaryPath (windows_world climbing_executable_settings)
          (main (windows_world climbing_executable_settings) [''opkit'', ''proj'']))"
  by code_simp

subsection \<open>The Linux layout\<close>

lemma posix_append_text:
  assumes "has_filename p" and "\<not> is_absolute n" and "has_filename n" and "\<not> is_absolute e"
  shows "posix_append (posix_append (posix_append p ''opt'') n) e = p @ ''/opt/'' @ n @ ''/'' @ e"
proof -
  have 1: "posix_append p ''opt'' = p @ ''/opt''"
    using assms(1) by (simp add: posix_append_def is_absolute_def)
  have 2: "has_filename (p @ ''/opt'')"
    by (simp add: has_filename_def)
  have 3: "has_filename ((p @ ''/opt'') @ ''/'' @ n)"
    using assms(3) has_filename_nonempty [OF assms(3)] has_filename_append [of n "(p @ ''/opt'') @ ''/''"]
    by simp
  show ?thesis
    unfolding 1 using assms(2,4) 2 3 by (simp add: posix_append_def)
qed

text \<open>
  A composed path and the text with a separator between the two are the same path, when
  what is appended is not absolute.
\<close>

lemma same_path_refl [simp]: "same_path os p p"
  by (simp add: same_path_def)

lemma same_path_trans: "same_path os p q \<Longrightarrow> same_path os q r \<Longrightarrow> same_path os p r"
  by (simp add: same_path_def)

lemma posix_resolved_join:
  assumes "os \<noteq> Win" and "a \<noteq> []"
    and "j = [] \<or> j = ''/''" and "j = [] \<longrightarrow> \<not> has_filename a" and "\<not> is_absolute b"
  shows "is_rooted os (a @ j @ b) = is_rooted os a"
    and "resolved os (a @ j @ b) =
         rev (foldl (walk (is_rooted os a)) (rev (resolved os a)) (split_path (is_separator os) b))"
proof -
  have s: "is_separator os c = (c = CHR ''/'')" for c
    using assms(1) by (simp add: is_separator_def)
  show t: "is_rooted os (a @ j @ b) = is_rooted os a"
    using assms(1,2) by (cases a) (simp_all add: is_rooted_def is_absolute_def)
  have j1: "j = [] \<or> (\<exists>c. j = [c] \<and> is_separator os c)"
    using assms(3) by (auto simp add: s)
  have j2: "j = [] \<longrightarrow> a = [] \<or> is_separator os (last a)"
    using assms(2,4) by (cases a rule: rev_cases) (simp_all add: has_filename_def s)
  show "resolved os (a @ j @ b) =
         rev (foldl (walk (is_rooted os a)) (rev (resolved os a)) (split_path (is_separator os) b))"
    using assms(1) walk_join [OF j1 j2, of "is_rooted os a" "[]" b]
    by (simp add: resolved_def resolve_def root_name_length_def t)
qed

lemma posix_append_same:
  assumes "os \<noteq> Win" and "a \<noteq> []" and "\<not> is_absolute b"
  shows "same_path os (posix_append a b) (a @ ''/'' @ b)"
proof -
  define j where "j = (if has_filename a then ''/'' else [])"
  have e: "posix_append a b = a @ j @ b"
    using assms(3) by (simp add: posix_append_def j_def)
  have 1: "j = [] \<or> j = ''/''" "j = [] \<longrightarrow> \<not> has_filename a"
    by (simp_all add: j_def)
  note p = posix_resolved_join [OF assms(1,2) 1 assms(3)]
  note q = posix_resolved_join [OF assms(1,2), of "''/''" b, simplified, OF assms(3)]
  show ?thesis
    unfolding e using assms(1) p q by (simp add: same_path_def root_name_length_def)
qed

lemma same_path_continued:
  assumes "os \<noteq> Win" and "same_path os p q" and "p \<noteq> []" and "q \<noteq> []" and "\<not> is_absolute c"
  shows "same_path os (p @ ''/'' @ c) (q @ ''/'' @ c)"
proof -
  note a = posix_resolved_join [OF assms(1,3), of "''/''" c, simplified, OF assms(5)]
  note b = posix_resolved_join [OF assms(1,4), of "''/''" c, simplified, OF assms(5)]
  show ?thesis
    using assms(1,2) a b by (simp add: same_path_def root_name_length_def)
qed

lemma posix_append_nonempty: "a \<noteq> [] \<or> b \<noteq> [] \<Longrightarrow> posix_append a b \<noteq> []"
  by (auto simp add: posix_append_def is_absolute_def)

lemma posix_layout_same:
  assumes "os \<noteq> Win" and "p \<noteq> []" and "\<not> is_absolute n" and "\<not> is_absolute e"
  shows "same_path os (posix_append (posix_append (posix_append p ''opt'') n) e)
           (p @ ''/opt/'' @ n @ ''/'' @ e)"
proof -
  let ?P = "posix_append p ''opt''"
  have o: "\<not> is_absolute ''opt''" by (simp add: is_absolute_def)
  have 1: "same_path os ?P (p @ ''/opt'')"
    using posix_append_same [OF assms(1,2) o] by simp
  have P: "?P \<noteq> []" by (simp add: posix_append_nonempty)
  have 2: "same_path os (posix_append ?P n) (?P @ ''/'' @ n)"
    by (rule posix_append_same [OF assms(1) P assms(3)])
  have 3: "same_path os (?P @ ''/'' @ n) ((p @ ''/opt'') @ ''/'' @ n)"
    by (rule same_path_continued [OF assms(1) 1 P _ assms(3)]) simp
  note 4 = same_path_trans [OF 2 3]
  have N: "posix_append ?P n \<noteq> []" using P by (simp add: posix_append_nonempty)
  have 5: "same_path os (posix_append (posix_append ?P n) e) (posix_append ?P n @ ''/'' @ e)"
    by (rule posix_append_same [OF assms(1) N assms(4)])
  have 6: "same_path os (posix_append ?P n @ ''/'' @ e) (((p @ ''/opt'') @ ''/'' @ n) @ ''/'' @ e)"
    by (rule same_path_continued [OF assms(1) 4 N _ assms(4)]) simp
  from same_path_trans [OF 5 6] show ?thesis by simp
qed

lemma linux_package_nonempty:
  assumes "no_help argv" and "passes_validation (loaded_settings w argv)" and "platform w = Linux"
  shows "pathPackage (prepared w argv) \<noteq> []"
proof -
  have n: "packageName (prepared w argv) \<noteq> []"
    using prepared_layout(1) [OF assms(1,2)] assms(3) by simp
  have "pathPackage (prepared w argv) =
      posix_append (posix_append (argv ! 1) (idx (loaded_settings w argv) ''output''))
        (packageName (prepared w argv))"
    using prepared_layout(2) [OF assms(1,2)] assms(3)
    by (simp add: path_append_def del: One_nat_def)
  then show ?thesis
    using n by (simp add: posix_append_nonempty)
qed

text \<open>
  Claim C8, as amended. On Linux, in a run that passes the validation, the package name
  is \<^verbatim>\<open><executable>_<version>-<revision>_<arch>\<close>, the package path is the project
  directory, the output directory and the package name composed as paths, and the binary
  path is the package path, \<^verbatim>\<open>opt\<close>, the name and the executable composed as paths
  (name and executable with the debug suffix when debug mode is on). When neither the
  name nor the executable is an absolute path, the binary path is the same path as the
  text \<^verbatim>\<open><package>/opt/<name>/<executable>\<close>, and it is that text itself when, moreover,
  the name is not empty and the package path and the name do not end in a separator.
  With debug mode off and the settings name \<^verbatim>\<open>foo\<close>, executable \<^verbatim>\<open>foo\<close>, output
  \<^verbatim>\<open>dist\<close>, version \<^verbatim>\<open>1.0\<close>, arch \<^verbatim>\<open>amd64\<close>, revision \<^verbatim>\<open>1\<close> (and the other keys
  that the validation asks for): the package name is \<^verbatim>\<open>foo_1.0-1_amd64\<close>, the package
  path is \<^verbatim>\<open>dist/foo_1.0-1_amd64\<close> appended to the project directory, the binary path is
  \<^verbatim>\<open>opt/foo/foo\<close> under it, and the path handed to the user's build command, which runs
  in the project directory, is \<^verbatim>\<open>dist/foo_1.0-1_amd64/opt/foo\<close>.
\<close>

theorem C8_linux_layout:
  assumes "2 \<le> length argv" and "no_help argv" and "passes_validation (loaded_settings w argv)"
    and "platform w = Linux"
  shows "packageName (main w argv) =
       idx (settings (main w argv)) ''executable'' @ ''_'' @ idx (loaded_settings w argv) ''version''
         @ ''-'' @ idx (loaded_settings w argv) ''revision'' @ ''_'' @ idx (loaded_settings w argv) ''arch'' \<and>
     idx (settings (main w argv)) ''executable'' = idx (loaded_settings w argv) ''executable'' @ dev_suffix argv \<and>
     idx (settings (main w argv)) ''name'' = idx (loaded_settings w argv) ''name'' @ dev_suffix argv \<and>
     pathPackage (main w argv) =
       posix_append (posix_append (argv ! 1) (idx (loaded_settings w argv) ''output''))
         (packageName (main w argv)) \<and>
     binaryPath w (main w argv) =
       posix_append (posix_append (posix_append (pathPackage (main w argv)) ''opt'')
         (idx (settings (main w argv)) ''name'')) (idx (settings (main w argv)) ''executable'') \<and>
     (\<not> is_absolute (idx (settings (main w argv)) ''name'') \<and>
      \<not> is_absolute (idx (settings (main w argv)) ''executable'') \<longrightarrow>
        same_path Linux (binaryPath w (main w argv))
          (pathPackage (main w argv) @ ''/opt/'' @ idx (settings (main w argv)) ''name'' @ ''/''
             @ idx (settings (main w argv)) ''executable'')) \<and>
     (has_filename (pathPackage (main w argv)) \<and>
      \<not> is_absolute (idx (settings (main w argv)) ''name'') \<and>
      has_filename (idx (settings (main w argv)) ''name'') \<and>
      \<not> is_absolute (idx (settings (main w argv)) ''executable'') \<longrightarrow>
        binaryPath w (main w argv) =
          pathPackage (main w argv) @ ''/opt/'' @ idx (settings (main w argv)) ''name'' @ ''/''
            @ idx (settings (main w argv)) ''executable'') \<and>
     (\<not> debug_enabled argv \<and>
      loaded_settings w argv ''name'' = Some ''foo'' \<and>
      loaded_settings w argv ''executable'' = Some ''foo'' \<and>
      loaded_settings w argv ''output'' = Some ''dist'' \<and>
      loaded_settings w argv ''version'' = Some ''1.0'' \<and>
      loaded_settings w argv ''arch'' = Some ''amd64'' \<and>
      loaded_settings w argv ''revision'' = Some ''1'' \<longrightarrow>
        packageName (main w argv) = ''foo_1.0-1_amd64'' \<and>
        pathPackage (main w argv) = posix_append (argv ! 1) ''dist/foo_1.0-1_amd64'' \<and>
        binaryPath w (main w argv) = pathPackage (main w argv) @ ''/opt/foo/foo'' \<and>
        (has_filename (argv ! 1) \<longrightarrow>
           pathPackage (main w argv) = argv ! 1 @ ''/dist/foo_1.0-1_amd64'' \<and>
           binaryPath w (main w argv) = argv ! 1 @ ''/dist/foo_1.0-1_amd64/opt/foo/foo'') \<and>
        pathResourcesRelativeToUserBuild (main w argv) = ''dist/foo_1.0-1_amd64/opt/foo'')"
proof -
  let ?m = "loaded_settings w argv"
  note l = main_prepared(1) [OF assms(1), of w, unfolded layout_values_eq]
  have k: "idx (settings (main w argv)) k = idx ?m k @ dev_suffix argv"
    if "k \<in> {''name'', ''executable''}" for k
  proof -
    from that have r: "k \<in> set required" by (auto simp add: required_def)
    show ?thesis
      using that main_prepared(2) [OF assms(1) r, of w] prepared_common(4) [OF assms(2,3) r]
      by (auto simp add: idx_def)
  qed
  have k1: "idx (settings (main w argv)) ''executable'' = idx ?m ''executable'' @ dev_suffix argv"
    and k2: "idx (settings (main w argv)) ''name'' = idx ?m ''name'' @ dev_suffix argv"
    by (simp_all add: k)
  have n: "packageName (main w argv) =
      idx ?m ''executable'' @ dev_suffix argv @ ''_'' @ idx ?m ''version'' @ ''-''
        @ idx ?m ''revision'' @ ''_'' @ idx ?m ''arch''"
    using l prepared_layout(1) [OF assms(2,3)] assms(4) by simp
  have pkg: "pathPackage (main w argv) =
      posix_append (posix_append (argv ! 1) (idx ?m ''output'')) (packageName (main w argv))"
    using l prepared_layout(2) [OF assms(2,3)] assms(4) by (simp add: path_append_def del: One_nat_def)
  have bin: "binaryPath w (main w argv) =
      posix_append (posix_append (posix_append (pathPackage (main w argv)) ''opt'')
        (idx ?m ''name'' @ dev_suffix argv)) (idx ?m ''executable'' @ dev_suffix argv)"
    using l prepared_layout(3) [OF assms(2,3)] prepared_common(3) [OF assms(2,3)] assms(4)
    by (simp add: binaryPath_def path_append_def)
  have bin': "binaryPath w (main w argv) =
       posix_append (posix_append (posix_append (pathPackage (main w argv)) ''opt'')
         (idx (settings (main w argv)) ''name'')) (idx (settings (main w argv)) ''executable'')"
    unfolding k1 k2 by (rule bin)
  have ne: "pathPackage (main w argv) \<noteq> []"
    using linux_package_nonempty [OF assms(2,3,4)] l by simp
  have same: "same_path Linux (binaryPath w (main w argv))
      (pathPackage (main w argv) @ ''/opt/'' @ idx (settings (main w argv)) ''name'' @ ''/''
         @ idx (settings (main w argv)) ''executable'')"
    if "\<not> is_absolute (idx (settings (main w argv)) ''name'')"
      "\<not> is_absolute (idx (settings (main w argv)) ''executable'')"
    unfolding bin' by (rule posix_layout_same [OF _ ne that]) simp
  have lit: "binaryPath w (main w argv) =
      pathPackage (main w argv) @ ''/opt/'' @ idx (settings (main w argv)) ''name'' @ ''/''
        @ idx (settings (main w argv)) ''executable''"
    if "has_filename (pathPackage (main w argv))" "\<not> is_absolute (idx (settings (main w argv)) ''name'')"
      "has_filename (idx (settings (main w argv)) ''name'')"
      "\<not> is_absolute (idx (settings (main w argv)) ''executable'')"
    unfolding bin' using that by (rule posix_append_text)
  have rel: "pathResourcesRelativeToUserBuild (main w argv) =
      posix_append (posix_append (posix_append (idx ?m ''output'') (packageName (main w argv))) ''opt'')
        (idx ?m ''name'' @ dev_suffix argv)"
    using l prepared_layout(4) [OF assms(2,3)] assms(4) by (simp add: path_append_def)
  have concrete: "packageName (main w argv) = ''foo_1.0-1_amd64'' \<and>
        pathPackage (main w argv) = posix_append (argv ! 1) ''dist/foo_1.0-1_amd64'' \<and>
        binaryPath w (main w argv) = pathPackage (main w argv) @ ''/opt/foo/foo'' \<and>
        (has_filename (argv ! 1) \<longrightarrow>
           pathPackage (main w argv) = argv ! 1 @ ''/dist/foo_1.0-1_amd64'' \<and>
           binaryPath w (main w argv) = argv ! 1 @ ''/dist/foo_1.0-1_amd64/opt/foo/foo'') \<and>
        pathResourcesRelativeToUserBuild (main w argv) = ''dist/foo_1.0-1_amd64/opt/foo''"
    if c: "\<not> debug_enabled argv" "?m ''name'' = Some ''foo''" "?m ''executable'' = Some ''foo''"
      "?m ''output'' = Some ''dist''" "?m ''version'' = Some ''1.0''" "?m ''arch'' = Some ''amd64''"
      "?m ''revision'' = Some ''1''"
  proof -
    have v: "idx ?m ''name'' = ''foo''" "idx ?m ''executable'' = ''foo''" "idx ?m ''output'' = ''dist''"
      "idx ?m ''version'' = ''1.0''" "idx ?m ''arch'' = ''amd64''" "idx ?m ''revision'' = ''1''"
      "dev_suffix argv = []"
      using c by (simp_all add: idx_def dev_suffix_def)
    have n': "packageName (main w argv) = ''foo_1.0-1_amd64''"
      unfolding n v by simp
    have a: "posix_append (posix_append a ''dist'') ''foo_1.0-1_amd64'' = posix_append a ''dist/foo_1.0-1_amd64''"
      for a
      by (subst posix_append_assoc; simp add: is_absolute_def has_filename_def)
    have p': "pathPackage (main w argv) = posix_append (argv ! 1) ''dist/foo_1.0-1_amd64''"
      unfolding pkg n' v a ..
    have f: "has_filename (pathPackage (main w argv))"
      unfolding p' by (simp add: posix_append_def is_absolute_def has_filename_def)
    have b': "binaryPath w (main w argv) = pathPackage (main w argv) @ ''/opt/foo/foo''"
      using lit [OF f] unfolding k1 k2 v by (simp add: is_absolute_def has_filename_def)
    have pf: "pathPackage (main w argv) = argv ! 1 @ ''/dist/foo_1.0-1_amd64''" if "has_filename (argv ! 1)"
      unfolding p' using that by (simp add: posix_append_def is_absolute_def)
    have r': "pathResourcesRelativeToUserBuild (main w argv) = ''dist/foo_1.0-1_amd64/opt/foo''"
      unfolding rel n' v by (simp add: posix_append_def is_absolute_def has_filename_def)
    from n' p' b' pf r' show ?thesis by simp
  qed
  show ?thesis
  proof (intro conjI impI)
    show "packageName (main w argv) =
       idx (settings (main w argv)) ''executable'' @ ''_'' @ idx ?m ''version''
         @ ''-'' @ idx ?m ''revision'' @ ''_'' @ idx ?m ''arch''"
      unfolding k1 n by simp
  qed (use k1 k2 pkg bin' same lit concrete in blast)+
qed

theorem C8_linux_layout_witness:
  "packageName (main (demo_world Linux demo_settings ok_exec) [''opkit'', ''proj'', ''-xd'']) = ''foo_1.0-1_amd64'' \<and>
   pathPackage (main (demo_world Linux demo_settings ok_exec) [''opkit'', ''proj'', ''-xd'']) =
     ''proj/dist/foo_1.0-1_amd64'' \<and>
   binaryPath (demo_world Linux demo_settings ok_exec)
     (main (demo_world Linux demo_settings ok_exec) [''opkit'', ''proj'', ''-xd'']) =
     ''proj/dist/foo_1.0-1_amd64/opt/foo/foo'' \<and>
   pathResourcesRelativeToUserBuild (main (demo_world Linux demo_settings ok_exec) [''opkit'', ''proj'', ''-xd'']) =
     ''dist/foo_1.0-1_amd64/opt/foo''"
proof -
  let ?W = "demo_world Linux demo_settings ok_exec"
  let ?argv = "[''opkit'', ''proj'', ''-xd'']"
  have m: "loaded_settings ?W ?argv = demo_settings"
    by (simp add: loaded_settings_def demo_world_def)
  have h1: "2 \<le> length ?argv" by simp
  have h2: "no_help ?argv" by code_simp
  have h3: "passes_validation (loaded_settings ?W ?argv)"
    unfolding m by (rule demo_passes)
  have h4: "platform ?W = Linux" by (simp add: demo_world_def)
  have d: "\<not> debug_enabled ?argv"
    by code_simp
  have c: "demo_settings ''name'' = Some ''foo'' \<and>
      demo_settings ''executable'' = Some ''foo'' \<and>
      demo_settings ''output'' = Some ''dist'' \<and>
      demo_settings ''version'' = Some ''1.0'' \<and>
      demo_settings ''arch'' = Some ''amd64'' \<and>
      demo_settings ''revision'' = Some ''1''"
    by code_simp
  have f: "has_filename (?argv ! 1)"
    by (simp add: has_filename_def)
  note r = C8_linux_layout [OF h1 h2 h3 h4, unfolded m, THEN conjunct2, THEN conjunct2, THEN conjunct2,
      THEN conjunct2, THEN conjunct2, THEN conjunct2, THEN conjunct2, THEN mp, OF conjI [OF d c]]
  note q = r [THEN conjunct2, THEN conjunct2, THEN conjunct2, THEN conjunct1, THEN mp, OF f]
  from r [THEN conjunct1] q
    r [THEN conjunct2, THEN conjunct2, THEN conjunct2, THEN conjunct2]
  show ?thesis by simp
qed

text \<open>
  The claim as stated fails. The six settings of the claim do not pass the validation:
  the run ends with 1 before any path is derived, and it still does so when the
  \<^verbatim>\<open>_cmd\<close> key is added, because \<^verbatim>\<open>title\<close> is mandatory. For settings that pass, the
  package path starts with the project directory, and the binary of an application whose
  name is the absolute path \<^verbatim>\<open>/x\<close> is \<^verbatim>\<open>/x/foo\<close>, not \<^verbatim>\<open><package>/opt/<name>/foo\<close>.
\<close>

theorem C8_counterexample:
  "\<not> debug_enabled [''opkit'', ''proj'', ''-xd''] \<and>
   exit_code (main (demo_world Linux scenario_settings ok_exec) [''opkit'', ''proj'', ''-xd'']) = Some 1 \<and>
   packageName (main (demo_world Linux scenario_settings ok_exec) [''opkit'', ''proj'', ''-xd'']) = [] \<and>
   pathPackage (main (demo_world Linux scenario_settings ok_exec) [''opkit'', ''proj'', ''-xd'']) = [] \<and>
   binaryPath (demo_world Linux scenario_settings ok_exec)
     (main (demo_world Linux scenario_settings ok_exec) [''opkit'', ''proj'', ''-xd'']) = [] \<and>
   exit_code (main (demo_world Linux scenario_settings_with_command ok_exec) [''opkit'', ''proj'', ''-xd'']) =
     Some 1 \<and>
   last (trace (main (demo_world Linux scenario_settings_with_command ok_exec) [''opkit'', ''proj'', ''-xd''])) =
     Log (sq @ ''title'' @ sq @ '' key/value is required'') \<and>
   pathPackage (main (demo_world Linux scenario_settings_with_command ok_exec) [''opkit'', ''proj'', ''-xd'']) = [] \<and>
   passes_validation abs_name_settings \<and>
   exit_code (main (demo_world Linux abs_name_settings ok_exec) [''opkit'', ''proj'', ''-xd'']) = Some 0 \<and>
   pathPackage (main (demo_world Linux abs_name_settings ok_exec) [''opkit'', ''proj'', ''-xd'']) =
     ''proj/dist/foo_1.0-1_amd64'' \<and>
   binaryPath (demo_world Linux abs_name_settings ok_exec)
     (main (demo_world Linux abs_name_settings ok_exec) [''opkit'', ''proj'', ''-xd'']) = ''/x/foo''"
  by code_simp

end
